theory Spec2Isabelle
  imports Complex_Main "HOL-Library.AList" "HOL-Library.Monad_Syntax"
begin

section \<open>JavaScript values used by the two scripts\<close>

text \<open>
  Strings are character lists. The string and array methods the scripts call are written
  out below after their ECMAScript definitions: \<open>split\<close> with a one-character separator,
  \<open>join\<close>, \<open>slice\<close> with a possibly negative start, \<open>toLowerCase\<close>, \<open>toUpperCase\<close>
  and \<open>charAt\<close> (the last three on ASCII, which is what ECO codes and player handles are
  made of).
\<close>

datatype js_error =
    Error string    \<comment> \<open>\<open>new Error(message)\<close>\<close>
  | TypeError       \<comment> \<open>a property read on \<open>undefined\<close>, or \<open>fetch\<close> rejecting\<close>
  | SyntaxError     \<comment> \<open>\<open>res.json()\<close> on a body that is not JSON\<close>
  | ZodError        \<comment> \<open>\<open>schema.parse\<close> on a value of the wrong shape\<close>

text \<open>\<open>s.split(c)\<close>: the pieces of \<open>s\<close> between the occurrences of \<open>c\<close>; never empty.\<close>

fun split :: "char \<Rightarrow> string \<Rightarrow> string list" where
  "split c [] = [[]]"
| "split c (x # xs) =
     (if x = c then [] # split c xs
      else (case split c xs of
              [] \<Rightarrow> [[x]]
            | w # ws \<Rightarrow> (x # w) # ws))"

text \<open>\<open>xs.join(sep)\<close>.\<close>

fun join :: "string \<Rightarrow> string list \<Rightarrow> string" where
  "join sep [] = []"
| "join sep [x] = x"
| "join sep (x # y # ys) = x @ sep @ join sep (y # ys)"

text \<open>
  \<open>xs.slice(start, end)\<close> on arrays and strings: a negative index counts from the end,
  both are clamped to the length, \<open>None\<close> is an omitted \<open>end\<close>.
\<close>

definition rel_index :: "int \<Rightarrow> int \<Rightarrow> nat" where
  "rel_index len i = nat (if i < 0 then max (len + i) 0 else min i len)"

definition slice :: "int \<Rightarrow> int option \<Rightarrow> 'a list \<Rightarrow> 'a list" where
  "slice start end xs =
     (let len = int (length xs);
          k = rel_index len start;
          final = (case end of None \<Rightarrow> length xs | Some e \<Rightarrow> rel_index len e)
      in take (final - k) (drop k xs))"

definition lower_char :: "char \<Rightarrow> char" where
  "lower_char c =
     (case map_of (zip ''ABCDEFGHIJKLMNOPQRSTUVWXYZ'' ''abcdefghijklmnopqrstuvwxyz'') c of
        None \<Rightarrow> c
      | Some l \<Rightarrow> l)"

definition upper_char :: "char \<Rightarrow> char" where
  "upper_char c =
     (case map_of (zip ''abcdefghijklmnopqrstuvwxyz'' ''ABCDEFGHIJKLMNOPQRSTUVWXYZ'') c of
        None \<Rightarrow> c
      | Some u \<Rightarrow> u)"

definition toLowerCase :: "string \<Rightarrow> string" where
  "toLowerCase s = map lower_char s"

definition toUpperCase :: "string \<Rightarrow> string" where
  "toUpperCase s = map upper_char s"

definition charAt :: "nat \<Rightarrow> string \<Rightarrow> string" where
  "charAt i s = (if i < length s then [s ! i] else [])"

text \<open>
  A plain object used as a dictionary is an association list in insertion order with one
  entry per key: \<open>o[k]\<close> is \<open>map_of\<close>, \<open>o[k] = v\<close> is \<open>AList.update\<close> (which replaces
  the value in place or appends a new entry), \<open>Object.keys\<close> is \<open>map fst\<close> and
  \<open>Object.entries\<close> is the list itself. The keys of this program are ECO codes, category
  letters, position codes and opening names; none is an integer index or a member of
  \<open>Object.prototype\<close>, for which JavaScript orders or resolves differently.
\<close>

type_synonym 'v obj = "(string \<times> 'v) list"

section \<open>The chess engine and the opening records\<close>

text \<open>
  \<open>chess.js\<close> is not part of the repository. What the scripts see of it is
  \<open>loadPgn\<close>, which throws on move text it cannot replay, and afterwards
  \<open>history({verbose: true})\<close> and \<open>fen()\<close>. The engine is therefore a parameter
  \<open>loadPgn :: string \<Rightarrow> js_error + Chess\<close>, where a \<open>Chess\<close> holds what the two
  getters return.
\<close>

record Move =
  move_from :: string
  move_to :: string
  promotion :: "string option"
  after :: string

record Chess =
  history :: "Move list"
  fen :: string

record OpeningData =
  eco :: string
  name :: string
  pgn :: string
  epd :: string
  uci :: string

text \<open>\<open>fen.split(" ").slice(0, 4).join(" ")\<close>, the position code of a position string.\<close>

definition epd_of :: "string \<Rightarrow> string" where
  "epd_of f = join '' '' (slice 0 (Some 4) (split CHR '' '' f))"

section \<open>The analyzer: \<open>identifyOpening\<close>\<close>

text \<open>
  The position-code index \<open>epd-lookup.json\<close> is a generated file; it is the parameter
  \<open>idx\<close>. The loop of \<open>identifyOpening\<close>: while no result is found and the history
  is not empty, probe the index with the code of the last position and pop it. \<open>null\<close>
  and \<open>undefined\<close> are both \<open>None\<close>.
\<close>

function identify_loop :: "OpeningData obj \<Rightarrow> Move list \<Rightarrow> OpeningData option" where
  "identify_loop idx hist =
     (if hist = [] then None
      else (case map_of idx (epd_of (after (last hist))) of
              Some r \<Rightarrow> Some r
            | None \<Rightarrow> identify_loop idx (butlast hist)))"
  by pat_completeness auto
termination
  by (relation "measure (\<lambda>(i, h). length h)") auto

declare identify_loop.simps [simp del]

definition identifyOpening ::
  "(string \<Rightarrow> js_error + Chess) \<Rightarrow> OpeningData obj \<Rightarrow> string \<Rightarrow> js_error + OpeningData option" where
  "identifyOpening loadPgn idx p =
     (if p = [] then Inr None
      else (case loadPgn p of
              Inl e \<Rightarrow> Inl e
            | Inr chess \<Rightarrow> Inr (identify_loop idx (history chess))))"

section \<open>HTTP and \<open>Promise.all\<close>\<close>

text \<open>
  The network is a parameter \<open>fetch :: string \<Rightarrow> js_error + Response\<close>: \<open>Inl\<close> is a
  rejected \<open>fetch\<close> (no response at all), \<open>Inr\<close> a response of any status. A
  \<open>Response\<close> carries \<open>res.ok\<close>, \<open>res.status\<close>, \<open>res.statusText\<close>, the body as
  \<open>res.text()\<close> gives it and as \<open>res.json()\<close> gives it (\<open>None\<close> when the body is not
  JSON, for which \<open>res.json()\<close> rejects with a \<open>SyntaxError\<close>).
\<close>

datatype json =
    JNull
  | JBool bool
  | JNum rat
  | JStr string
  | JArr "json list"
  | JObj "(string \<times> json) list"

record Response =
  ok :: bool
  status :: nat
  statusText :: string
  body_text :: string
  body_json :: "json option"

text \<open>
  \<open>Promise.all(promises)\<close> over promises that are all started before any is awaited:
  it rejects with the error of the promise that rejects first in time, and otherwise
  fulfils with the values in positional order. \<open>settle\<close> lists the positions in the order
  in which the promises settle; positions it leaves out settle afterwards, in positional
  order.
\<close>

definition promise_all :: "nat list \<Rightarrow> (js_error + 'a) list \<Rightarrow> js_error + 'a list" where
  "promise_all settle rs =
     (case List.find (\<lambda>i. i < length rs \<and> isl (rs ! i)) (settle @ [0 ..< length rs]) of
        Some i \<Rightarrow> Inl (projl (rs ! i))
      | None \<Rightarrow> Inr (map projr rs))"

section \<open>The reference-data builder (\<open>generate-data.ts\<close>)\<close>

definition categories :: "string list" where
  "categories = [''a'', ''b'', ''c'', ''d'', ''e'']"

definition category_url :: "string \<Rightarrow> string" where
  "category_url category =
     ''https://raw.githubusercontent.com/lichess-org/chess-openings/master/'' @ category @ ''.tsv''"

text \<open>The body of the callback mapped over the categories in \<open>fetchOpenings\<close>.\<close>

definition fetchCategory :: "(string \<Rightarrow> js_error + Response) \<Rightarrow> string \<Rightarrow> js_error + string list" where
  "fetchCategory fetch category =
     (case fetch (category_url category) of
        Inl e \<Rightarrow> Inl e
      | Inr res \<Rightarrow>
          if \<not> ok res
          then Inl (Error (''Failed to fetch category '' @ category @ '': '' @ statusText res))
          else Inr (slice 1 None (split CHR 0x0A (body_text res))))"

text \<open>
  \<open>fetchOpenings\<close>: the \<open>catch\<close> logs and rethrows, so an error of \<open>Promise.all\<close> is
  the error of the function. \<open>filter(Boolean)\<close> on strings drops the empty ones.
\<close>

definition fetchOpenings :: "nat list \<Rightarrow> (string \<Rightarrow> js_error + Response) \<Rightarrow> js_error + string list" where
  "fetchOpenings settle fetch =
     (case promise_all settle (map (fetchCategory fetch) categories) of
        Inl e \<Rightarrow> Inl e
      | Inr rowss \<Rightarrow> Inr (filter (\<lambda>row. row \<noteq> []) (concat rowss)))"

text \<open>
  One iteration of \<open>processRows\<close>. The destructuring \<open>[eco, name, pgn] = row.split("\t")\<close>
  leaves \<open>pgn\<close> undefined on a row of fewer than three fields, and \<open>loadPgn\<close> then
  throws a \<open>TypeError\<close> on reading a property of it; further fields are ignored.
  \<open>if (move.promotion)\<close> skips an absent promotion (and an empty one, which would add
  nothing).
\<close>

definition move_uci :: "Move \<Rightarrow> string" where
  "move_uci m = move_from m @ move_to m @ (case promotion m of None \<Rightarrow> [] | Some p \<Rightarrow> p)"

definition processRow :: "(string \<Rightarrow> js_error + Chess) \<Rightarrow> string \<Rightarrow> js_error + OpeningData" where
  "processRow loadPgn row =
     (case split CHR 0x09 row of
        eco' # name' # pgn' # _ \<Rightarrow>
          (case loadPgn pgn' of
             Inl e \<Rightarrow> Inl e
           | Inr chess \<Rightarrow>
               Inr \<lparr> eco = eco', name = name', pgn = pgn',
                     epd = epd_of (fen chess),
                     uci = foldl (\<lambda>u m. u @ move_uci m) [] (history chess) \<rparr>)
      | _ \<Rightarrow> Inl TypeError)"

text \<open>
  \<open>processRows\<close>: \<open>forEach\<close> over the rows, the handler's effect threaded as a state;
  a throw leaves the loop.
\<close>

fun processRows ::
  "(string \<Rightarrow> js_error + Chess) \<Rightarrow> string list \<Rightarrow> (OpeningData \<Rightarrow> 's \<Rightarrow> 's) \<Rightarrow> 's \<Rightarrow> js_error + 's" where
  "processRows loadPgn [] handler st = Inr st"
| "processRows loadPgn (row # rows) handler st =
     (case processRow loadPgn row of
        Inl e \<Rightarrow> Inl e
      | Inr openingData \<Rightarrow> processRows loadPgn rows handler (handler openingData st))"

text \<open>The four structures \<open>main\<close> fills, and the callback it passes to \<open>processRows\<close>.\<close>

record indexes =
  epdLookup :: "OpeningData obj"
  ecoLookup :: "OpeningData list obj"
  categoryLookup :: "OpeningData list obj"
  openingList :: "OpeningData list"

definition empty_indexes :: indexes where
  "empty_indexes = \<lparr> epdLookup = [], ecoLookup = [], categoryLookup = [], openingList = [] \<rparr>"

text \<open>\<open>if (!o[k]) o[k] = []; o[k].push(v)\<close>; an array is never falsy.\<close>

definition push_at :: "string \<Rightarrow> 'a \<Rightarrow> 'a list obj \<Rightarrow> 'a list obj" where
  "push_at k v ob =
     (case map_of ob k of
        None \<Rightarrow> AList.update k [v] ob
      | Some vs \<Rightarrow> AList.update k (vs @ [v]) ob)"

definition handler :: "OpeningData \<Rightarrow> indexes \<Rightarrow> indexes" where
  "handler openingData ix =
     (let category = toUpperCase (charAt 0 (eco openingData))
      in \<lparr> epdLookup = AList.update (epd openingData) openingData (epdLookup ix),
            ecoLookup = push_at (eco openingData) openingData (ecoLookup ix),
            categoryLookup = push_at category openingData (categoryLookup ix),
            openingList = openingList ix @ [openingData] \<rparr>)"

text \<open>
  What \<open>main\<close> hands to \<open>writeToData\<close>, in the order of the five calls. The file system
  is outside the model: a write is the pair of the file name and the data serialised.
\<close>

datatype written =
    WList "OpeningData list"
  | WGroups "OpeningData list obj"
  | WIndex "OpeningData obj"
  | WKeys "string list"

definition writes :: "indexes \<Rightarrow> (string \<times> written) list" where
  "writes ix =
     [(''opening-list.json'', WList (openingList ix)),
      (''eco-lookup.json'', WGroups (ecoLookup ix)),
      (''category-lookup.json'', WGroups (categoryLookup ix)),
      (''epd-lookup.json'', WIndex (epdLookup ix)),
      (''eco-list.json'', WKeys (map fst (ecoLookup ix)))]"

text \<open>
  \<open>main\<close>: an error of the fetch or of a row is caught and logged, and nothing is
  written (\<open>Inl\<close>); otherwise the five files are written.
\<close>

definition main ::
  "nat list \<Rightarrow> (string \<Rightarrow> js_error + Response) \<Rightarrow> (string \<Rightarrow> js_error + Chess) \<Rightarrow>
   js_error + (string \<times> written) list" where
  "main settle fetch loadPgn =
     (case fetchOpenings settle fetch of
        Inl e \<Rightarrow> Inl e
      | Inr rows \<Rightarrow>
          (case processRows loadPgn rows handler empty_indexes of
             Inl e \<Rightarrow> Inl e
           | Inr ix \<Rightarrow> Inr (writes ix)))"

section \<open>The analyzer: schemas and \<open>fetchGames\<close>\<close>

text \<open>
  The zod schemas, as parsers of a JSON value that may be absent (a missing key reads as
  \<open>undefined\<close>); \<open>None\<close> is the \<open>ZodError\<close> that \<open>parse\<close> throws. \<open>z.object\<close>
  drops the keys it does not name; of a key the body repeats, \<open>JSON.parse\<close> keeps the
  last value.
\<close>

definition field :: "string \<Rightarrow> (string \<times> json) list \<Rightarrow> json option" where
  "field k kvs = map_of (rev kvs) k"

fun z_string :: "json option \<Rightarrow> string option" where
  "z_string (Some (JStr s)) = Some s"
| "z_string _ = None"

fun z_number :: "json option \<Rightarrow> rat option" where
  "z_number (Some (JNum n)) = Some n"
| "z_number _ = None"

fun z_boolean :: "json option \<Rightarrow> bool option" where
  "z_boolean (Some (JBool b)) = Some b"
| "z_boolean _ = None"

fun z_array :: "(json option \<Rightarrow> 'a option) \<Rightarrow> json option \<Rightarrow> 'a list option" where
  "z_array elem (Some (JArr js)) = those (map (\<lambda>j. elem (Some j)) js)"
| "z_array elem _ = None"

fun z_optional :: "(json option \<Rightarrow> 'a option) \<Rightarrow> json option \<Rightarrow> 'a option option" where
  "z_optional schema None = Some None"
| "z_optional schema (Some j) = map_option Some (schema (Some j))"

fun archiveSchema :: "json option \<Rightarrow> string list option" where
  "archiveSchema (Some (JObj kvs)) = z_array z_string (field ''archives'' kvs)"
| "archiveSchema _ = None"

record Player =
  rating :: rat
  result :: string
  at_id :: string
  username :: string
  uuid :: string

fun playerSchema :: "json option \<Rightarrow> Player option" where
  "playerSchema (Some (JObj kvs)) =
     do {
       rating' \<leftarrow> z_number (field ''rating'' kvs);
       result' \<leftarrow> z_string (field ''result'' kvs);
       at_id' \<leftarrow> z_string (field ''@id'' kvs);
       username' \<leftarrow> z_string (field ''username'' kvs);
       uuid' \<leftarrow> z_string (field ''uuid'' kvs);
       Some \<lparr> rating = rating', result = result', at_id = at_id',
              username = username', uuid = uuid' \<rparr>
     }"
| "playerSchema _ = None"

record Accuracies =
  acc_white :: rat
  acc_black :: rat

fun accuraciesObject :: "json option \<Rightarrow> Accuracies option" where
  "accuraciesObject (Some (JObj kvs)) =
     do {
       w \<leftarrow> z_number (field ''white'' kvs);
       b \<leftarrow> z_number (field ''black'' kvs);
       Some \<lparr> acc_white = w, acc_black = b \<rparr>
     }"
| "accuraciesObject _ = None"

definition accuraciesSchema :: "json option \<Rightarrow> Accuracies option option" where
  "accuraciesSchema = z_optional accuraciesObject"

record Game =
  url :: string
  game_pgn :: string
  time_control :: string
  end_time :: rat
  rated :: bool
  tcn :: "string option"
  game_uuid :: string
  initial_setup :: string
  game_fen :: string
  time_class :: string
  rules :: string
  white :: Player
  black :: Player
  accuracies :: "Accuracies option"

fun gameSchema :: "json option \<Rightarrow> Game option" where
  "gameSchema (Some (JObj kvs)) =
     do {
       url' \<leftarrow> z_string (field ''url'' kvs);
       pgn' \<leftarrow> z_string (field ''pgn'' kvs);
       time_control' \<leftarrow> z_string (field ''time_control'' kvs);
       end_time' \<leftarrow> z_number (field ''end_time'' kvs);
       rated' \<leftarrow> z_boolean (field ''rated'' kvs);
       tcn' \<leftarrow> z_optional z_string (field ''tcn'' kvs);
       uuid' \<leftarrow> z_string (field ''uuid'' kvs);
       initial_setup' \<leftarrow> z_string (field ''initial_setup'' kvs);
       fen' \<leftarrow> z_string (field ''fen'' kvs);
       time_class' \<leftarrow> z_string (field ''time_class'' kvs);
       rules' \<leftarrow> z_string (field ''rules'' kvs);
       white' \<leftarrow> playerSchema (field ''white'' kvs);
       black' \<leftarrow> playerSchema (field ''black'' kvs);
       accuracies' \<leftarrow> accuraciesSchema (field ''accuracies'' kvs);
       Some \<lparr> url = url', game_pgn = pgn', time_control = time_control',
              end_time = end_time', rated = rated', tcn = tcn', game_uuid = uuid',
              initial_setup = initial_setup', game_fen = fen', time_class = time_class',
              rules = rules', white = white', black = black', accuracies = accuracies' \<rparr>
     }"
| "gameSchema _ = None"

fun gamesDataSchema :: "json option \<Rightarrow> Game list option" where
  "gamesDataSchema (Some (JObj kvs)) = z_array gameSchema (field ''games'' kvs)"
| "gamesDataSchema _ = None"

text \<open>\<open>Object.assign({opening: ...}, game)\<close>: the fields of the game and \<open>opening\<close>.\<close>

record GameWithOpening = Game +
  game_opening :: "OpeningData option"

definition res_json :: "Response \<Rightarrow> js_error + json" where
  "res_json res = (case body_json res of None \<Rightarrow> Inl SyntaxError | Some j \<Rightarrow> Inr j)"

definition parse :: "(json option \<Rightarrow> 'a option) \<Rightarrow> json \<Rightarrow> js_error + 'a" where
  "parse schema j = (case schema (Some j) of None \<Rightarrow> Inl ZodError | Some v \<Rightarrow> Inr v)"

text \<open>
  The \<open>reduce\<close> over the games of one archive: a game of the standard rules is pushed
  with its opening; \<open>identifyOpening\<close> may throw, which ends the archive's promise.
\<close>

fun attach_openings ::
  "(string \<Rightarrow> js_error + Chess) \<Rightarrow> OpeningData obj \<Rightarrow> Game list \<Rightarrow> GameWithOpening list \<Rightarrow>
   js_error + GameWithOpening list" where
  "attach_openings loadPgn idx [] results = Inr results"
| "attach_openings loadPgn idx (game # games) results =
     (if rules game = ''chess''
      then (case identifyOpening loadPgn idx (game_pgn game) of
              Inl e \<Rightarrow> Inl e
            | Inr op \<Rightarrow>
                attach_openings loadPgn idx games
                  (results @ [Game.extend game (GameWithOpening.fields op)]))
      else attach_openings loadPgn idx games results)"

text \<open>The callback mapped over the archive URLs in \<open>fetchGames\<close>.\<close>

definition fetchArchive ::
  "(string \<Rightarrow> js_error + Response) \<Rightarrow> (string \<Rightarrow> js_error + Chess) \<Rightarrow> OpeningData obj \<Rightarrow> string \<Rightarrow>
   js_error + GameWithOpening list" where
  "fetchArchive fetch loadPgn idx archive =
     (case fetch archive of
        Inl e \<Rightarrow> Inl e
      | Inr res \<Rightarrow>
          (case res_json res of
             Inl e \<Rightarrow> Inl e
           | Inr gamesJson \<Rightarrow>
               (case parse gamesDataSchema gamesJson of
                  Inl e \<Rightarrow> Inl e
                | Inr gamesData \<Rightarrow> attach_openings loadPgn idx gamesData [])))"

definition archives_url :: "string \<Rightarrow> string" where
  "archives_url user = ''https://api.chess.com/pub/player/'' @ user @ ''/games/archives''"

text \<open>\<open>fetchGames\<close>; the two \<open>console.log\<close> calls are left out.\<close>

definition fetchGames ::
  "nat list \<Rightarrow> (string \<Rightarrow> js_error + Response) \<Rightarrow> (string \<Rightarrow> js_error + Chess) \<Rightarrow> OpeningData obj \<Rightarrow>
   string \<Rightarrow> js_error + GameWithOpening list" where
  "fetchGames settle fetch loadPgn idx user =
     (case fetch (archives_url user) of
        Inl e \<Rightarrow> Inl e
      | Inr res \<Rightarrow>
          (case res_json res of
             Inl e \<Rightarrow> Inl e
           | Inr j \<Rightarrow>
               (case parse archiveSchema j of
                  Inl e \<Rightarrow> Inl e
                | Inr archiveList \<Rightarrow>
                    (case promise_all settle
                            (map (fetchArchive fetch loadPgn idx) (slice (- 6) None archiveList)) of
                       Inl e \<Rightarrow> Inl e
                     | Inr gamess \<Rightarrow> Inr (concat gamess)))))"

section \<open>The analyzer: \<open>analyzeGames\<close> and \<open>sortOpenings\<close>\<close>

record Stats =
  total :: nat
  wins :: nat
  losses :: nat
  draws :: nat

definition initialStats :: Stats where
  "initialStats = \<lparr> total = 0, wins = 0, losses = 0, draws = 0 \<rparr>"

datatype color = White | Black

datatype outcome = Win | Loss | Draw

text \<open>\<open>game[color]\<close>.\<close>

definition side :: "color \<Rightarrow> 'a Game_scheme \<Rightarrow> Player" where
  "side c game = (case c of White \<Rightarrow> white game | Black \<Rightarrow> black game)"

definition playerColor :: "string \<Rightarrow> 'a Game_scheme \<Rightarrow> color" where
  "playerColor user game =
     (if toLowerCase (username (white game)) = toLowerCase user then White else Black)"

definition opponentColor :: "color \<Rightarrow> color" where
  "opponentColor c = (if c = Black then White else Black)"

definition game_result :: "color \<Rightarrow> 'a Game_scheme \<Rightarrow> outcome" where
  "game_result pc game =
     (if result (side pc game) = result (side (opponentColor pc) game) then Draw
      else if result (side pc game) = ''win'' then Win
      else Loss)"

text \<open>\<open>openingStat.total++\<close> followed by the \<open>switch\<close> on the result.\<close>

definition bump :: "outcome \<Rightarrow> Stats \<Rightarrow> Stats" where
  "bump r st =
     (let st1 = st\<lparr> total := total st + 1 \<rparr>
      in (case r of
            Win \<Rightarrow> st1\<lparr> wins := wins st1 + 1 \<rparr>
          | Loss \<Rightarrow> st1\<lparr> losses := losses st1 + 1 \<rparr>
          | Draw \<Rightarrow> st1\<lparr> draws := draws st1 + 1 \<rparr>))"

text \<open>
  The body of the \<open>forEach\<close> in \<open>analyzeGames\<close>, on \<open>openingStats\<close> as a function of
  the color. A bucket that is missing is created with \<open>initialStats()\<close> and then
  updated, which leaves it at the end of the insertion order either way.
\<close>

definition tally ::
  "string \<Rightarrow> GameWithOpening \<Rightarrow> (color \<Rightarrow> Stats obj) \<Rightarrow> (color \<Rightarrow> Stats obj)" where
  "tally user game openingStats =
     (case game_opening game of
        None \<Rightarrow> openingStats
      | Some op \<Rightarrow>
          (let pc = playerColor user game;
               r = game_result pc game;
               openingStat = (case map_of (openingStats pc) (name op) of
                                None \<Rightarrow> initialStats
                              | Some st \<Rightarrow> st)
           in openingStats(pc := AList.update (name op) (bump r openingStat) (openingStats pc))))"

definition openingStats :: "string \<Rightarrow> GameWithOpening list \<Rightarrow> color \<Rightarrow> Stats obj" where
  "openingStats user games = fold (tally user) games (\<lambda>c. [])"

text \<open>
  Numbers are IEEE doubles. The counters are small integers, which doubles hold exactly;
  the win rate is a quotient and a product, each rounded to a double. The rounding is the
  parameter \<open>fl\<close>, so that the rates below are the doubles the script compares, whatever
  the rounding does; a rate is kept as the rational that the double denotes.
\<close>

record Entry =
  openingName :: string
  stats :: Stats
  winRate :: rat

definition win_rate :: "(rat \<Rightarrow> rat) \<Rightarrow> Stats \<Rightarrow> rat" where
  "win_rate fl st =
     (if total st \<noteq> 0 then fl (fl (of_nat (wins st) / of_nat (total st)) * 100) else 0)"

text \<open>
  \<open>sort((a, b) => b.winRate - a.winRate)\<close> is a stable sort by decreasing rate: the
  comparator is negative exactly when \<open>a\<close> has the greater rate, and the result of a
  stable sort does not depend on the algorithm. \<open>sort_key\<close> is the stable insertion sort.
\<close>

definition sortOpenings :: "(rat \<Rightarrow> rat) \<Rightarrow> Stats obj \<Rightarrow> Entry list" where
  "sortOpenings fl os =
     sort_key (\<lambda>e. - winRate e)
       (filter (\<lambda>e. total (stats e) > 15)
          (map (\<lambda>(n, st). \<lparr> openingName = n, stats = st, winRate = win_rate fl st \<rparr>) os))"

text \<open>Decimal digits of an integer, and \<open>x.toFixed(2)\<close> for \<open>\<bar>x\<bar> < 10\<^sup>2\<^sup>1\<close>.\<close>

fun show_nat :: "nat \<Rightarrow> string" where
  "show_nat n =
     (if n < 10 then [char_of (48 + n)]
      else show_nat (n div 10) @ [char_of (48 + n mod 10)])"

declare show_nat.simps [simp del]

definition toFixed2 :: "rat \<Rightarrow> string" where
  "toFixed2 x =
     (let n = nat \<lfloor>\<bar>x\<bar> * 100 + 1 / 2\<rfloor>
      in (if x < 0 then ''-'' else [])
         @ show_nat (n div 100) @ ''.''
         @ [char_of (48 + n mod 100 div 10), char_of (48 + n mod 10)])"

definition format_entry :: "Entry \<Rightarrow> string" where
  "format_entry e =
     toFixed2 (winRate e) @ ''%: '' @ openingName e @ '' played ''
       @ show_nat (total (stats e)) @ '' games.''"

definition analyzeGames :: "(rat \<Rightarrow> rat) \<Rightarrow> string \<Rightarrow> GameWithOpening list \<Rightarrow> color \<Rightarrow> string list" where
  "analyzeGames fl user games c =
     map format_entry (slice 0 (Some 10) (sortOpenings fl (openingStats user games c)))"

section \<open>Sample data\<close>

text \<open>
  A small engine table, index and game list on which the theorems below are instantiated:
  the positions after 1. e4, 1... e5 and 2. Nf3, and an engine that replays exactly the
  move texts of these three plies and rejects every other text, the illegal first move
  1. Ke2 with the message of \<open>chess.js\<close>.
\<close>

definition ply1 :: Move where
  "ply1 = \<lparr> move_from = ''e2'', move_to = ''e4'', promotion = None,
            after = ''rnbqkbnr/pppppppp/8/8/4P3/8/PPPP1PPP/RNBQKBNR b KQkq - 0 1'' \<rparr>"

definition ply2 :: Move where
  "ply2 = \<lparr> move_from = ''e7'', move_to = ''e5'', promotion = None,
            after = ''rnbqkbnr/pppp1ppp/8/4p3/4P3/8/PPPP1PPP/RNBQKBNR w KQkq - 0 2'' \<rparr>"

definition ply3 :: Move where
  "ply3 = \<lparr> move_from = ''g1'', move_to = ''f3'', promotion = None,
            after = ''rnbqkbnr/pppp1ppp/8/4p3/4P3/5N2/PPPP1PPP/RNBQKB1R b KQkq - 1 2'' \<rparr>"

definition chess_after :: "Move list \<Rightarrow> Chess" where
  "chess_after ms = \<lparr> history = ms, fen = after (last ms) \<rparr>"

definition sample_loadPgn :: "string \<Rightarrow> js_error + Chess" where
  "sample_loadPgn p =
     (if p = ''1. e4'' then Inr (chess_after [ply1])
      else if p = ''1. e4 e5'' then Inr (chess_after [ply1, ply2])
      else if p = ''1. e4 e5 2. Nf3'' then Inr (chess_after [ply1, ply2, ply3])
      else if p = ''1. Ke2'' then Inl (Error ''Invalid move in PGN: Ke2'')
      else Inl (Error ''Invalid PGN''))"

definition kings_pawn :: OpeningData where
  "kings_pawn = \<lparr> eco = ''B00'', name = ''King's Pawn'', pgn = ''1. e4'',
                  epd = ''rnbqkbnr/pppppppp/8/8/4P3/8/PPPP1PPP/RNBQKBNR b KQkq -'',
                  uci = ''e2e4'' \<rparr>"

definition kings_pawn_game :: OpeningData where
  "kings_pawn_game = \<lparr> eco = ''C20'', name = ''King's Pawn Game'', pgn = ''1. e4 e5'',
                       epd = ''rnbqkbnr/pppp1ppp/8/4p3/4P3/8/PPPP1PPP/RNBQKBNR w KQkq -'',
                       uci = ''e2e4e7e5'' \<rparr>"

definition kings_pawn_again :: OpeningData where
  "kings_pawn_again = kings_pawn\<lparr> name := ''King's Pawn Opening'' \<rparr>"

definition sample_index :: "OpeningData obj" where
  "sample_index = [(epd kings_pawn, kings_pawn), (epd kings_pawn_game, kings_pawn_game)]"

definition tsv_header :: string where
  "tsv_header = ''eco'' @ [CHR 0x09] @ ''name'' @ [CHR 0x09] @ ''pgn''"

definition row_kings_pawn :: string where
  "row_kings_pawn = ''B00'' @ [CHR 0x09] @ ''King's Pawn'' @ [CHR 0x09] @ ''1. e4''"

definition row_kings_pawn_game :: string where
  "row_kings_pawn_game = ''C20'' @ [CHR 0x09] @ ''King's Pawn Game'' @ [CHR 0x09] @ ''1. e4 e5''"

definition respond :: "string \<Rightarrow> Response" where
  "respond body = \<lparr> ok = True, status = 200, statusText = ''OK'', body_text = body,
                    body_json = None \<rparr>"

definition not_found :: Response where
  "not_found = \<lparr> ok = False, status = 404, statusText = ''Not Found'',
                  body_text = ''404: Not Found'', body_json = None \<rparr>"

text \<open>Five category files: two hold one opening each, the others only the header.\<close>

definition sample_fetch :: "string \<Rightarrow> js_error + Response" where
  "sample_fetch u =
     (if u = category_url ''b''
        then Inr (respond (tsv_header @ [CHR 0x0A] @ row_kings_pawn @ [CHR 0x0A]))
      else if u = category_url ''c''
        then Inr (respond (tsv_header @ [CHR 0x0A] @ row_kings_pawn_game @ [CHR 0x0A]))
      else Inr (respond (tsv_header @ [CHR 0x0A])))"

text \<open>The same, with the file of category \<open>d\<close> missing.\<close>

definition failing_fetch :: "string \<Rightarrow> js_error + Response" where
  "failing_fetch u = (if u = category_url ''d'' then Inr not_found else sample_fetch u)"

text \<open>
  Category \<open>a\<close> with two lines after the header that hold only whitespace, a space and a
  lone carriage return; the other categories hold the header alone.
\<close>

definition blank_fetch :: "string \<Rightarrow> js_error + Response" where
  "blank_fetch u =
     (if u = category_url ''a''
        then Inr (respond (tsv_header @ [CHR 0x0A] @ '' '' @ [CHR 0x0A, CHR 0x0D, CHR 0x0A]))
      else Inr (respond tsv_header))"

definition sample_indexes :: indexes where
  "sample_indexes = fold handler [kings_pawn, kings_pawn_game] empty_indexes"

text \<open>Games of three players; the analyzed handle is \<open>alice\<close>.\<close>

definition player :: "string \<Rightarrow> string \<Rightarrow> Player" where
  "player u r = \<lparr> rating = 1500, result = r,
                  at_id = ''https://api.chess.com/pub/player/'' @ u,
                  username = u, uuid = ''7d6e5f4c-0000-4000-8000-000000000001'' \<rparr>"

definition played :: "Player \<Rightarrow> Player \<Rightarrow> OpeningData option \<Rightarrow> GameWithOpening" where
  "played w b op =
     \<lparr> url = ''https://www.chess.com/game/live/1'', game_pgn = ''1. e4 e5'',
       time_control = ''600'', end_time = 1700000000, rated = True, tcn = None,
       game_uuid = ''7d6e5f4c-0000-4000-8000-000000000002'', initial_setup = [],
       game_fen = ''rnbqkbnr/pppp1ppp/8/4p3/4P3/8/PPPP1PPP/RNBQKBNR w KQkq - 0 2'',
       time_class = ''rapid'', rules = ''chess'', white = w, black = b, accuracies = None,
       game_opening = op \<rparr>"

definition white_win :: GameWithOpening where
  "white_win = played (player ''Alice'' ''win'') (player ''bob'' ''checkmated'') (Some kings_pawn_game)"

definition white_loss :: GameWithOpening where
  "white_loss = played (player ''alice'' ''resigned'') (player ''bob'' ''win'') (Some kings_pawn_game)"

definition white_win_kp :: GameWithOpening where
  "white_win_kp = played (player ''ALICE'' ''win'') (player ''carol'' ''timeout'') (Some kings_pawn)"

definition black_draw :: GameWithOpening where
  "black_draw = played (player ''bob'' ''agreed'') (player ''alice'' ''agreed'') (Some kings_pawn_game)"

definition stranger_game :: GameWithOpening where
  "stranger_game = played (player ''bob'' ''win'') (player ''carol'' ''resigned'') (Some kings_pawn)"

definition unmatched_game :: GameWithOpening where
  "unmatched_game = played (player ''alice'' ''win'') (player ''bob'' ''resigned'') None"

definition sample_games :: "GameWithOpening list" where
  "sample_games =
     replicate 12 white_win @ [black_draw, unmatched_game] @ replicate 4 white_loss
       @ replicate 16 white_win_kp @ [stranger_game]"

definition top_kings_pawn :: Entry where
  "top_kings_pawn = \<lparr> openingName = ''King's Pawn'',
      stats = \<lparr> total = 16, wins = 16, losses = 0, draws = 0 \<rparr>, winRate = 100 \<rparr>"

definition top_kings_pawn_game :: Entry where
  "top_kings_pawn_game = \<lparr> openingName = ''King's Pawn Game'',
      stats = \<lparr> total = 16, wins = 12, losses = 4, draws = 0 \<rparr>, winRate = 75 \<rparr>"

text \<open>
  A player's archive list of two months and the two archives, as JSON: the first month
  has no game, the second the game \<open>white_win\<close>. The analyzer reads only the JSON of a
  body, so the raw text of these responses is left empty.
\<close>

definition json_response :: "nat \<Rightarrow> string \<Rightarrow> json \<Rightarrow> Response" where
  "json_response code reason j =
     \<lparr> ok = (200 \<le> code \<and> code < 300), status = code, statusText = reason,
       body_text = [], body_json = Some j \<rparr>"

definition player_json :: "string \<Rightarrow> string \<Rightarrow> json" where
  "player_json u r =
     JObj [(''rating'', JNum 1500), (''result'', JStr r),
           (''@id'', JStr (''https://api.chess.com/pub/player/'' @ u)),
           (''username'', JStr u),
           (''uuid'', JStr ''7d6e5f4c-0000-4000-8000-000000000001'')]"

definition game_json :: "string \<Rightarrow> json \<Rightarrow> json \<Rightarrow> json" where
  "game_json p w b =
     JObj [(''url'', JStr ''https://www.chess.com/game/live/1''), (''pgn'', JStr p),
           (''time_control'', JStr ''600''), (''end_time'', JNum 1700000000),
           (''rated'', JBool True),
           (''uuid'', JStr ''7d6e5f4c-0000-4000-8000-000000000002''),
           (''initial_setup'', JStr []),
           (''fen'', JStr ''rnbqkbnr/pppp1ppp/8/4p3/4P3/8/PPPP1PPP/RNBQKBNR w KQkq - 0 2''),
           (''time_class'', JStr ''rapid''), (''rules'', JStr ''chess''),
           (''white'', w), (''black'', b)]"

definition month1 :: string where
  "month1 = ''https://api.chess.com/pub/player/alice/games/2024/01''"

definition month2 :: string where
  "month2 = ''https://api.chess.com/pub/player/alice/games/2024/02''"

definition archives_json :: json where
  "archives_json = JObj [(''archives'', JArr [JStr month1, JStr month2])]"

definition month2_json :: "string \<Rightarrow> json" where
  "month2_json p =
     JObj [(''games'',
            JArr [game_json p (player_json ''Alice'' ''win'') (player_json ''bob'' ''checkmated'')])]"

text \<open>
  The network for the handle \<open>alice\<close>; \<open>code\<close> and \<open>reason\<close> are the status of every
  response, \<open>p\<close> is the move text of the one game.
\<close>

definition games_fetch :: "nat \<Rightarrow> string \<Rightarrow> string \<Rightarrow> string \<Rightarrow> js_error + Response" where
  "games_fetch code reason p u =
     (if u = archives_url ''alice'' then Inr (json_response code reason archives_json)
      else if u = month1 then Inr (json_response code reason (JObj [(''games'', JArr [])]))
      else if u = month2 then Inr (json_response code reason (month2_json p))
      else Inl TypeError)"

text \<open>The game of \<open>month2_json p\<close> as the schema parses it.\<close>

definition parsed_game :: "string \<Rightarrow> Game" where
  "parsed_game p =
     \<lparr> url = ''https://www.chess.com/game/live/1'', game_pgn = p,
       time_control = ''600'', end_time = 1700000000, rated = True, tcn = None,
       game_uuid = ''7d6e5f4c-0000-4000-8000-000000000002'', initial_setup = [],
       game_fen = ''rnbqkbnr/pppp1ppp/8/4p3/4P3/8/PPPP1PPP/RNBQKBNR w KQkq - 0 2'',
       time_class = ''rapid'', rules = ''chess'',
       white = player ''Alice'' ''win'', black = player ''bob'' ''checkmated'',
       accuracies = None \<rparr>"

section \<open>Properties of \<open>identifyOpening\<close>\<close>

lemma identify_loop_Nil: "identify_loop idx [] = None"
  by (subst identify_loop.simps) simp

lemma identify_loop_snoc:
  "identify_loop idx (h @ [m]) =
     (case map_of idx (epd_of (after m)) of Some r \<Rightarrow> Some r | None \<Rightarrow> identify_loop idx h)"
  by (subst identify_loop.simps) (simp split: option.splits)

lemma identify_loop_none:
  "(identify_loop idx h = None) = (\<forall>m \<in> set h. map_of idx (epd_of (after m)) = None)"
  by (induction h rule: rev_induct)
     (auto simp: identify_loop_Nil identify_loop_snoc split: option.splits)

lemma identify_loop_deepest:
  "j < length h \<Longrightarrow> map_of idx (epd_of (after (h ! j))) = Some r \<Longrightarrow>
   (\<forall>i. j < i \<and> i < length h \<longrightarrow> map_of idx (epd_of (after (h ! i))) = None) \<Longrightarrow>
   identify_loop idx h = Some r"
proof (induction h rule: rev_induct)
  case Nil
  then show ?case by simp
next
  case (snoc m h)
  show ?case
  proof (cases "j = length h")
    case True
    with snoc.prems(2) show ?thesis by (simp add: identify_loop_snoc)
  next
    case False
    with snoc.prems(1) have j: "j < length h" by simp
    have last_none: "map_of idx (epd_of (after m)) = None"
      using snoc.prems(3)[rule_format, of "length h"] j by simp
    have "map_of idx (epd_of (after (h ! j))) = Some r"
      using snoc.prems(2) j by (simp add: nth_append)
    moreover have "\<forall>i. j < i \<and> i < length h \<longrightarrow> map_of idx (epd_of (after (h ! i))) = None"
    proof (intro allI impI)
      fix i assume "j < i \<and> i < length h"
      then show "map_of idx (epd_of (after (h ! i))) = None"
        using snoc.prems(3)[rule_format, of i] by (simp add: nth_append)
    qed
    ultimately have "identify_loop idx h = Some r" using snoc.IH j by blast
    with last_none show ?thesis by (simp add: identify_loop_snoc)
  qed
qed

text \<open>
  C1. An empty move text gives no match whatever the engine would do with it: the engine
  is not called. For a move text the engine replays: if the position after ply \<open>j\<close> has
  its code in the index and no later position has, the result is the record stored for
  that code (the deepest matching ply); if no position has its code in the index, and in
  particular if there is no position, the result is no match.
\<close>

theorem identifyOpening_deepest_match:
  "identifyOpening loadPgn idx [] = Inr None
   \<and> (\<forall>p chess. p \<noteq> [] \<and> loadPgn p = Inr chess \<longrightarrow>
        (\<forall>j r. j < length (history chess)
                \<and> map_of idx (epd_of (after (history chess ! j))) = Some r
                \<and> (\<forall>i. j < i \<and> i < length (history chess)
                        \<longrightarrow> map_of idx (epd_of (after (history chess ! i))) = None)
              \<longrightarrow> identifyOpening loadPgn idx p = Inr (Some r))
        \<and> ((\<forall>m \<in> set (history chess). map_of idx (epd_of (after m)) = None)
              \<longrightarrow> identifyOpening loadPgn idx p = Inr None)
        \<and> (history chess = [] \<longrightarrow> identifyOpening loadPgn idx p = Inr None))"
  by (auto simp: identifyOpening_def identify_loop_none identify_loop_Nil
           intro: identify_loop_deepest)

lemma epd_ply1: "epd_of (after ply1) = epd kings_pawn"
  by (simp add: epd_of_def slice_def rel_index_def ply1_def kings_pawn_def)

lemma epd_ply2: "epd_of (after ply2) = epd kings_pawn_game"
  by (simp add: epd_of_def slice_def rel_index_def ply2_def kings_pawn_game_def)

lemma epd_ply3:
  "epd_of (after ply3) = ''rnbqkbnr/pppp1ppp/8/4p3/4P3/5N2/PPPP1PPP/RNBQKB1R b KQkq -''"
  by (simp add: epd_of_def slice_def rel_index_def ply3_def)

lemma sample_index_ply3: "map_of sample_index (epd_of (after ply3)) = None"
  by (simp add: epd_ply3 sample_index_def kings_pawn_def kings_pawn_game_def)

lemma sample_index_ply2: "map_of sample_index (epd_of (after ply2)) = Some kings_pawn_game"
  by (simp add: epd_ply2 sample_index_def kings_pawn_def kings_pawn_game_def)

theorem identifyOpening_deepest_match_witness:
  "identifyOpening sample_loadPgn sample_index ''1. e4 e5 2. Nf3'' = Inr (Some kings_pawn_game)
   \<and> identifyOpening sample_loadPgn [] ''1. e4 e5 2. Nf3'' = Inr None
   \<and> identifyOpening sample_loadPgn sample_index [] = Inr None"
proof -
  let ?p = "''1. e4 e5 2. Nf3''"
  let ?c = "chess_after [ply1, ply2, ply3]"
  have load: "?p \<noteq> [] \<and> sample_loadPgn ?p = Inr ?c"
    by (simp add: sample_loadPgn_def)
  have hit: "1 < length (history ?c)
             \<and> map_of sample_index (epd_of (after (history ?c ! 1))) = Some kings_pawn_game
             \<and> (\<forall>i. 1 < i \<and> i < length (history ?c)
                     \<longrightarrow> map_of sample_index (epd_of (after (history ?c ! i))) = None)"
  proof (intro conjI allI impI)
    fix i assume "1 < i \<and> i < length (history ?c)"
    then have "i = 2" by (simp add: chess_after_def)
    then show "map_of sample_index (epd_of (after (history ?c ! i))) = None"
      by (simp add: chess_after_def sample_index_ply3)
  qed (simp_all add: chess_after_def sample_index_ply2)
  have miss: "\<forall>m \<in> set (history ?c). map_of [] (epd_of (after m)) = (None :: OpeningData option)"
    by simp
  from identifyOpening_deepest_match [of sample_loadPgn sample_index] load hit
  have "identifyOpening sample_loadPgn sample_index ?p = Inr (Some kings_pawn_game)"
    by blast
  moreover from identifyOpening_deepest_match [of sample_loadPgn "[]"] load miss
  have "identifyOpening sample_loadPgn [] ?p = Inr None"
    by blast
  moreover from identifyOpening_deepest_match [of sample_loadPgn sample_index]
  have "identifyOpening sample_loadPgn sample_index [] = Inr None"
    by blast
  ultimately show ?thesis by blast
qed

section \<open>Strings and slices\<close>

lemma slice_drop: "slice 1 None xs = drop 1 xs"
  by (cases xs) (simp_all add: slice_def rel_index_def)

lemma slice_last6: "slice (- 6) None xs = drop (length xs - 6) xs"
  by (simp add: slice_def rel_index_def Let_def nat_diff_distrib' max_def) 

lemma slice_take: "0 \<le> k \<Longrightarrow> slice 0 (Some k) xs = take (nat k) xs"
  by (auto simp add: slice_def rel_index_def Let_def min_def)

lemma split_not_Nil: "split c s \<noteq> []"
  by (induction s) (auto split: list.splits)

lemma split_no_sep: "w \<in> set (split c s) \<Longrightarrow> c \<notin> set w"
  by (induction s arbitrary: w) (auto split: list.splits if_splits)

lemma split_single: "c \<notin> set x \<Longrightarrow> split c x = [x]"
  by (induction x) auto

lemma split_append_sep: "c \<notin> set x \<Longrightarrow> split c (x @ c # rest) = x # split c rest"
  by (induction x) (auto split: list.splits simp: split_not_Nil)

lemma split_join:
  "ws \<noteq> [] \<Longrightarrow> \<forall>w \<in> set ws. c \<notin> set w \<Longrightarrow> split c (join [c] ws) = ws"
proof (induction ws)
  case Nil
  then show ?case by simp
next
  case (Cons w ws)
  show ?case
  proof (cases ws)
    case Nil
    with Cons.prems show ?thesis by (simp add: split_single)
  next
    case (Cons y ys)
    with Cons.IH Cons.prems have "split c (join [c] (y # ys)) = y # ys" by simp
    with Cons Cons.prems show ?thesis by (simp add: split_append_sep)
  qed
qed

lemma epd_of_fields:
  assumes "4 \<le> length (split CHR '' '' f)"
  shows "split CHR '' '' (epd_of f) = take 4 (split CHR '' '' f)"
    and "length (split CHR '' '' (epd_of f)) = 4"
proof -
  let ?ws = "take 4 (split CHR '' '' f)"
  have ne: "?ws \<noteq> []" using assms by auto
  have nosep: "\<forall>w \<in> set ?ws. CHR '' '' \<notin> set w"
    by (meson in_set_takeD split_no_sep)
  have "epd_of f = join [CHR '' ''] ?ws"
    by (simp add: epd_of_def slice_take)
  then show "split CHR '' '' (epd_of f) = ?ws"
    using split_join[OF ne nosep] by simp
  then show "length (split CHR '' '' (epd_of f)) = 4" using assms by simp
qed

section \<open>The reference-data builder: rows, records and indexes\<close>

text \<open>
  C5. A row whose first three tab-separated fields are \<open>e\<close>, \<open>n\<close> and \<open>p\<close>, whose
  move text \<open>p\<close> the engine replays, and whose final position string has the four leading
  fields of a standard position string (such a string has six): the record built, which
  is what the handler receives, has \<open>eco = e\<close>, \<open>name = n\<close>, \<open>pgn = p\<close>, and its
  position code splits at the spaces into exactly four fields, the first four of the
  final position string.
\<close>

theorem processRow_record:
  "split CHR 0x09 row = e # n # p # rest \<Longrightarrow> loadPgn p = Inr chess \<Longrightarrow>
   4 \<le> length (split CHR '' '' (fen chess)) \<Longrightarrow>
   \<exists>r. processRow loadPgn row = Inr r
       \<and> processRows loadPgn [row] h st = Inr (h r st)
       \<and> eco r = e \<and> name r = n \<and> pgn r = p
       \<and> split CHR '' '' (epd r) = take 4 (split CHR '' '' (fen chess))
       \<and> length (split CHR '' '' (epd r)) = 4"
proof -
  assume fields: "split CHR 0x09 row = e # n # p # rest"
    and replayed: "loadPgn p = Inr chess"
    and standard: "4 \<le> length (split CHR '' '' (fen chess))"
  let ?r = "\<lparr> eco = e, name = n, pgn = p, epd = epd_of (fen chess),
              uci = foldl (\<lambda>u m. u @ move_uci m) [] (history chess) \<rparr>"
  have built: "processRow loadPgn row = Inr ?r"
    using fields replayed by (simp add: processRow_def)
  then have handled: "processRows loadPgn [row] h st = Inr (h ?r st)"
    by simp
  have code: "split CHR '' '' (epd ?r) = take 4 (split CHR '' '' (fen chess))"
    "length (split CHR '' '' (epd ?r)) = 4"
    using epd_of_fields [OF standard] by simp_all
  show ?thesis
    apply (rule exI [of _ ?r])
    apply (intro conjI)
          apply (rule built)
         apply (rule handled)
        apply simp
       apply simp
      apply simp
     apply (rule code(1))
    apply (rule code(2))
    done
qed

lemma split_row_kings_pawn:
  "split CHR 0x09 row_kings_pawn = [''B00'', ''King's Pawn'', ''1. e4'']"
  by (simp add: row_kings_pawn_def)

theorem processRow_record_witness:
  "\<exists>r. processRow sample_loadPgn row_kings_pawn = Inr r
       \<and> eco r = ''B00'' \<and> name r = ''King's Pawn'' \<and> pgn r = ''1. e4''
       \<and> length (split CHR '' '' (epd r)) = 4"
proof -
  have load: "sample_loadPgn ''1. e4'' = Inr (chess_after [ply1])"
    by (simp add: sample_loadPgn_def)
  have fields: "4 \<le> length (split CHR '' '' (fen (chess_after [ply1])))"
    by (simp add: chess_after_def ply1_def)
  from processRow_record [where loadPgn = sample_loadPgn and h = handler
                             and st = empty_indexes, OF split_row_kings_pawn load fields]
  show ?thesis by blast
qed

lemma processRows_fold:
  "processRows loadPgn rows h st = Inr st' \<Longrightarrow>
   \<exists>rs. map (processRow loadPgn) rows = map Inr rs \<and> st' = fold h rs st"
proof (induction rows arbitrary: st)
  case Nil
  then show ?case by simp
next
  case (Cons row rows)
  then obtain r where r: "processRow loadPgn row = Inr r"
    and rest: "processRows loadPgn rows h (h r st) = Inr st'"
    by (auto split: sum.splits)
  from Cons.IH [OF rest] obtain rs
    where "map (processRow loadPgn) rows = map Inr rs" "st' = fold h rs (h r st)" by blast
  with r have "map (processRow loadPgn) (row # rows) = map Inr (r # rs) \<and> st' = fold h (r # rs) st"
    by simp
  then show ?case by blast
qed

lemma processRows_built:
  "map (processRow loadPgn) rows = map Inr rs \<Longrightarrow>
   processRows loadPgn rows h st = Inr (fold h rs st)"
  by (induction rows arbitrary: rs st) auto

lemma epdLookup_handler: "epdLookup (handler r ix) = AList.update (epd r) r (epdLookup ix)"
  by (simp add: handler_def)

lemma map_of_epdLookup_snoc:
  "map_of (epdLookup (fold handler (rs @ [r]) ix)) = (map_of (epdLookup (fold handler rs ix)))(epd r \<mapsto> r)"
  by (simp add: epdLookup_handler update_conv')

lemma map_of_epdLookup_fold:
  "map_of (epdLookup (fold handler rs empty_indexes)) c =
     (if \<exists>r \<in> set rs. epd r = c then Some (last (filter (\<lambda>r. epd r = c) rs)) else None)"
proof (induction rs rule: rev_induct)
  case Nil
  then show ?case by (simp add: empty_indexes_def)
next
  case (snoc r rs)
  show ?case
    unfolding map_of_epdLookup_snoc using snoc.IH by auto
qed

lemma distinct_epdLookup_fold: "distinct (map fst (epdLookup (fold handler rs empty_indexes)))"
  by (induction rs rule: rev_induct) (simp_all add: empty_indexes_def epdLookup_handler distinct_update)

text \<open>
  C6. After folding a sequence of records into the indexes, the position-code index maps
  a code to the last record of the sequence that bears it, and holds no other code; in
  particular a record that no later record shares its code with is the one stored under
  its code. The index has one entry per code.
\<close>

theorem epdLookup_last_write_wins:
  "map_of (epdLookup (fold handler rs empty_indexes)) c =
     (if \<exists>r \<in> set rs. epd r = c then Some (last (filter (\<lambda>r. epd r = c) rs)) else None)
   \<and> (\<forall>before r later. rs = before @ r # later \<and> (\<forall>x \<in> set later. epd x \<noteq> epd r)
        \<longrightarrow> map_of (epdLookup (fold handler rs empty_indexes)) (epd r) = Some r)
   \<and> distinct (map fst (epdLookup (fold handler rs empty_indexes)))"
proof (intro conjI allI impI)
  fix before r later
  assume a: "rs = before @ r # later \<and> (\<forall>x \<in> set later. epd x \<noteq> epd r)"
  then have f: "filter (\<lambda>x. epd x = epd r) rs = filter (\<lambda>x. epd x = epd r) before @ [r]"
    by (auto simp: filter_empty_conv)
  from a have ex: "\<exists>x \<in> set rs. epd x = epd r"
    by auto
  from f ex show "map_of (epdLookup (fold handler rs empty_indexes)) (epd r) = Some r"
    by (simp add: map_of_epdLookup_fold)
qed (simp_all add: map_of_epdLookup_fold distinct_epdLookup_fold)

theorem epdLookup_last_write_wins_witness:
  "map_of (epdLookup (fold handler [kings_pawn, kings_pawn_game, kings_pawn_again] empty_indexes))
     (epd kings_pawn) = Some kings_pawn_again
   \<and> map_of (epdLookup (fold handler [kings_pawn, kings_pawn_game, kings_pawn_again] empty_indexes))
     (epd kings_pawn_game) = Some kings_pawn_game"
proof -
  let ?rs = "[kings_pawn, kings_pawn_game, kings_pawn_again]"
  have same: "epd kings_pawn_again = epd kings_pawn"
    by (simp add: kings_pawn_again_def)
  have differ: "epd kings_pawn_again \<noteq> epd kings_pawn_game"
    by (simp add: kings_pawn_again_def kings_pawn_def kings_pawn_game_def)
  have "?rs = [kings_pawn, kings_pawn_game] @ kings_pawn_again # []
        \<and> (\<forall>x \<in> set []. epd x \<noteq> epd kings_pawn_again)"
    by simp
  with epdLookup_last_write_wins [of ?rs "epd kings_pawn"]
  have "map_of (epdLookup (fold handler ?rs empty_indexes)) (epd kings_pawn_again)
          = Some kings_pawn_again"
    by blast
  moreover have "?rs = [kings_pawn] @ kings_pawn_game # [kings_pawn_again]
        \<and> (\<forall>x \<in> set [kings_pawn_again]. epd x \<noteq> epd kings_pawn_game)"
    using differ by simp
  with epdLookup_last_write_wins [of ?rs "epd kings_pawn"]
  have "map_of (epdLookup (fold handler ?rs empty_indexes)) (epd kings_pawn_game)
          = Some kings_pawn_game"
    by blast
  ultimately show ?thesis using same by simp
qed

section \<open>The reference-data builder: fetching and the files written\<close>

lemma push_at_keys:
  "map fst (push_at k v ob) = (if k \<in> set (map fst ob) then map fst ob else map fst ob @ [k])"
  by (simp add: push_at_def update_keys split: option.splits)

lemma ecoLookup_handler: "ecoLookup (handler r ix) = push_at (eco r) r (ecoLookup ix)"
  by (simp add: handler_def)

lemma categoryLookup_handler:
  "categoryLookup (handler r ix) = push_at (toUpperCase (charAt 0 (eco r))) r (categoryLookup ix)"
  by (simp add: handler_def)

lemma ecoLookup_keys:
  "map fst (ecoLookup (fold handler rs empty_indexes)) = rev (remdups (rev (map eco rs)))"
proof (induction rs rule: rev_induct)
  case Nil
  then show ?case by (simp add: empty_indexes_def)
next
  case (snoc r rs)
  have "set (map fst (ecoLookup (fold handler rs empty_indexes))) = eco ` set rs"
    by (simp add: snoc.IH)
  with snoc.IH show ?case
    by (simp add: ecoLookup_handler push_at_keys)
qed

lemma categoryLookup_keys:
  "map fst (categoryLookup (fold handler rs empty_indexes))
     = rev (remdups (rev (map (\<lambda>r. toUpperCase (charAt 0 (eco r))) rs)))"
proof (induction rs rule: rev_induct)
  case Nil
  then show ?case by (simp add: empty_indexes_def)
next
  case (snoc r rs)
  have "set (map fst (categoryLookup (fold handler rs empty_indexes)))
          = (\<lambda>r. toUpperCase (charAt 0 (eco r))) ` set rs"
    by (simp add: snoc.IH)
  with snoc.IH show ?case
    by (simp add: categoryLookup_handler push_at_keys)
qed

lemma main_Inr:
  "main settle fetch loadPgn = Inr files \<Longrightarrow>
   \<exists>rows rs. fetchOpenings settle fetch = Inr rows
     \<and> map (processRow loadPgn) rows = map Inr rs
     \<and> files = writes (fold handler rs empty_indexes)"
proof -
  assume m: "main settle fetch loadPgn = Inr files"
  then obtain rows ix where rows: "fetchOpenings settle fetch = Inr rows"
    and ix: "processRows loadPgn rows handler empty_indexes = Inr ix"
    and files: "files = writes ix"
    by (auto simp: main_def split: sum.splits)
  from processRows_fold [OF ix] obtain rs
    where "map (processRow loadPgn) rows = map Inr rs" "ix = fold handler rs empty_indexes"
    by blast
  with rows files show ?thesis by blast
qed

text \<open>
  C7, as the code has it. When the builder writes its files, the fifth is
  \<open>eco-list.json\<close> and holds the keys of the ECO-code index, which is the second file:
  the distinct ECO codes of the records, each at the place of its first occurrence. It
  does not hold the category letters, which are the keys of the third file.
\<close>

theorem eco_list_file:
  "main settle fetch loadPgn = Inr files \<Longrightarrow>
   \<exists>rows rs. fetchOpenings settle fetch = Inr rows
     \<and> map (processRow loadPgn) rows = map Inr rs
     \<and> length files = 5
     \<and> files ! 4 = (''eco-list.json'', WKeys (rev (remdups (rev (map eco rs)))))
     \<and> files ! 1 = (''eco-lookup.json'', WGroups (ecoLookup (fold handler rs empty_indexes)))
     \<and> map fst (ecoLookup (fold handler rs empty_indexes)) = rev (remdups (rev (map eco rs)))"
proof -
  assume "main settle fetch loadPgn = Inr files"
  from main_Inr [OF this] obtain rows rs
    where "fetchOpenings settle fetch = Inr rows"
      "map (processRow loadPgn) rows = map Inr rs"
      "files = writes (fold handler rs empty_indexes)"
    by blast
  then show ?thesis
    by (intro exI [of _ rows] exI [of _ rs]) (simp add: writes_def ecoLookup_keys)
qed

lemma promise_all_Inr:
  "\<forall>r \<in> set rs. \<not> isl r \<Longrightarrow> promise_all settle rs = Inr (map projr rs)"
proof -
  assume a: "\<forall>r \<in> set rs. \<not> isl r"
  have "List.find (\<lambda>i. i < length rs \<and> isl (rs ! i)) (settle @ [0 ..< length rs]) = None"
    using a by (auto simp: find_None_iff)
  then show ?thesis by (simp add: promise_all_def)
qed

lemma promise_all_Inl:
  "\<exists>r \<in> set rs. isl r \<Longrightarrow>
   \<exists>i < length rs. isl (rs ! i) \<and> promise_all settle rs = Inl (projl (rs ! i))"
proof -
  assume "\<exists>r \<in> set rs. isl r"
  then obtain k where k: "k < length rs" "isl (rs ! k)"
    by (auto simp: in_set_conv_nth)
  let ?P = "\<lambda>i. i < length rs \<and> isl (rs ! i)"
  from k have "\<exists>x. x \<in> set (settle @ [0 ..< length rs]) \<and> ?P x"
    by (intro exI [of _ k]) simp
  then obtain i where i: "List.find ?P (settle @ [0 ..< length rs]) = Some i"
    by (cases "List.find ?P (settle @ [0 ..< length rs])") (simp_all add: find_None_iff)
  then have "?P i"
    by (auto simp: find_Some_iff)
  with i show ?thesis by (auto simp: promise_all_def)
qed

lemma promise_all_cases:
  "(promise_all settle rs = Inr vs \<longrightarrow> rs = map Inr vs)
   \<and> (promise_all settle rs = Inl e \<longrightarrow> Inl e \<in> set rs)"
proof (cases "\<exists>r \<in> set rs. isl r")
  case True
  from promise_all_Inl [OF True, of settle] obtain i
    where i: "i < length rs" "isl (rs ! i)" "promise_all settle rs = Inl (projl (rs ! i))"
    by blast
  then have "Inl (projl (rs ! i)) \<in> set rs"
    by (metis nth_mem sum.collapse(1))
  with i show ?thesis by auto
next
  case False
  then have all: "\<forall>r \<in> set rs. \<not> isl r" by blast
  have "map Inr (map projr rs) = rs"
    using all by (induction rs) auto
  with promise_all_Inr [OF all, of settle] show ?thesis by auto
qed


lemma fetchCategory_not_ok:
  "fetch (category_url c) = Inr res \<Longrightarrow> \<not> ok res \<Longrightarrow>
   fetchCategory fetch c = Inl (Error (''Failed to fetch category '' @ c @ '': '' @ statusText res))"
  by (simp add: fetchCategory_def)

lemma fetchCategory_ok:
  "fetch (category_url c) = Inr res \<Longrightarrow> ok res \<Longrightarrow>
   fetchCategory fetch c = Inr (drop 1 (split CHR 0x0A (body_text res)))"
  by (simp add: fetchCategory_def slice_drop)

lemma fetchCategory_Inl:
  "fetchCategory fetch c = Inl e \<Longrightarrow> \<not> isl (fetch (category_url c)) \<Longrightarrow>
   \<exists>res. fetch (category_url c) = Inr res \<and> \<not> ok res
     \<and> e = Error (''Failed to fetch category '' @ c @ '': '' @ statusText res)"
  by (auto simp: fetchCategory_def split: sum.splits if_splits)

lemma fetchOpenings_Inl_main:
  "fetchOpenings settle fetch = Inl e \<Longrightarrow> main settle fetch loadPgn = Inl e"
  by (simp add: main_def)

text \<open>
  C8, as the code has it. Whatever the order in which the five fetches settle: a category whose response has
  a non-success status makes its promise reject with the error
  \<open>Failed to fetch category <c>: <statusText>\<close>, and then \<open>fetchOpenings\<close> fails and
  \<open>main\<close> writes no file; when every fetch delivered a response, the error of
  \<open>fetchOpenings\<close> is that message for a category whose status was not a success; and
  when every category succeeds the rows are, in category order, the lines of each body
  after the first, in their order, without the empty ones; a line that is not empty,
  whatever it holds, is a row.
\<close>

theorem fetchOpenings_all_or_nothing:
  "(\<forall>c res. c \<in> set categories \<and> fetch (category_url c) = Inr res \<and> \<not> ok res \<longrightarrow>
      fetchCategory fetch c
        = Inl (Error (''Failed to fetch category '' @ c @ '': '' @ statusText res))
      \<and> (\<exists>e. fetchOpenings settle fetch = Inl e \<and> main settle fetch loadPgn = Inl e))
   \<and> (\<forall>e. (\<forall>c \<in> set categories. \<not> isl (fetch (category_url c)))
          \<and> fetchOpenings settle fetch = Inl e \<longrightarrow>
      (\<exists>c res. c \<in> set categories \<and> fetch (category_url c) = Inr res \<and> \<not> ok res
         \<and> e = Error (''Failed to fetch category '' @ c @ '': '' @ statusText res)))
   \<and> ((\<forall>c \<in> set categories. \<exists>res. fetch (category_url c) = Inr res \<and> ok res) \<longrightarrow>
      fetchOpenings settle fetch
        = Inr (concat (map (\<lambda>c. filter (\<lambda>row. row \<noteq> [])
                 (drop 1 (split CHR 0x0A (body_text (projr (fetch (category_url c)))))))
               categories)))"
proof (intro conjI allI impI)
  fix c res
  assume a: "c \<in> set categories \<and> fetch (category_url c) = Inr res \<and> \<not> ok res"
  then show fc: "fetchCategory fetch c
        = Inl (Error (''Failed to fetch category '' @ c @ '': '' @ statusText res))"
    by (simp add: fetchCategory_not_ok)
  have "isl (fetchCategory fetch c)"
    unfolding fc by simp
  moreover from a have "fetchCategory fetch c \<in> set (map (fetchCategory fetch) categories)"
    by simp
  ultimately have "\<exists>r \<in> set (map (fetchCategory fetch) categories). isl r"
    by blast
  from promise_all_Inl [OF this, of settle]
  obtain e where "promise_all settle (map (fetchCategory fetch) categories) = Inl e"
    by blast
  then have "fetchOpenings settle fetch = Inl e"
    by (simp add: fetchOpenings_def)
  then show "\<exists>e. fetchOpenings settle fetch = Inl e \<and> main settle fetch loadPgn = Inl e"
    by (blast intro: fetchOpenings_Inl_main)
next
  fix e
  assume a: "(\<forall>c \<in> set categories. \<not> isl (fetch (category_url c)))
             \<and> fetchOpenings settle fetch = Inl e"
  then have "promise_all settle (map (fetchCategory fetch) categories) = Inl e"
    by (auto simp: fetchOpenings_def split: sum.splits)
  with promise_all_cases [of settle "map (fetchCategory fetch) categories" _ e]
  have "Inl e \<in> set (map (fetchCategory fetch) categories)"
    by blast
  then obtain c where c: "c \<in> set categories" "fetchCategory fetch c = Inl e"
    by auto
  with a fetchCategory_Inl [OF c(2)]
  show "\<exists>c res. c \<in> set categories \<and> fetch (category_url c) = Inr res \<and> \<not> ok res
         \<and> e = Error (''Failed to fetch category '' @ c @ '': '' @ statusText res)"
    by blast
next
  assume a: "\<forall>c \<in> set categories. \<exists>res. fetch (category_url c) = Inr res \<and> ok res"
  have each: "\<forall>c \<in> set categories.
      fetchCategory fetch c = Inr (drop 1 (split CHR 0x0A (body_text (projr (fetch (category_url c))))))"
  proof
    fix c assume "c \<in> set categories"
    with a obtain res where "fetch (category_url c) = Inr res" "ok res" by blast
    then show "fetchCategory fetch c
        = Inr (drop 1 (split CHR 0x0A (body_text (projr (fetch (category_url c))))))"
      by (simp add: fetchCategory_ok)
  qed
  then have eq: "map (fetchCategory fetch) categories
      = map (\<lambda>c. Inr (drop 1 (split CHR 0x0A (body_text (projr (fetch (category_url c)))))))
          categories"
    by simp
  have "promise_all settle (map (fetchCategory fetch) categories)
      = Inr (map (\<lambda>c. drop 1 (split CHR 0x0A (body_text (projr (fetch (category_url c))))))
               categories)"
    unfolding eq by (subst promise_all_Inr) (auto simp: comp_def)
  then show "fetchOpenings settle fetch
        = Inr (concat (map (\<lambda>c. filter (\<lambda>row. row \<noteq> [])
                 (drop 1 (split CHR 0x0A (body_text (projr (fetch (category_url c)))))))
               categories))"
    by (simp add: fetchOpenings_def filter_concat comp_def)
qed

section \<open>The builder on the sample data\<close>

lemma sample_fetch_ok:
  "c \<in> set categories \<Longrightarrow> \<exists>res. sample_fetch (category_url c) = Inr res \<and> ok res"
  by (auto simp: sample_fetch_def respond_def)

lemma sample_rows:
  "concat (map (\<lambda>c. filter (\<lambda>row. row \<noteq> [])
            (drop 1 (split CHR 0x0A (body_text (projr (sample_fetch (category_url c)))))))
          categories) = [row_kings_pawn, row_kings_pawn_game]"
  by (simp add: categories_def sample_fetch_def category_url_def respond_def tsv_header_def
        row_kings_pawn_def row_kings_pawn_game_def)

lemma processRow_kings_pawn: "processRow sample_loadPgn row_kings_pawn = Inr kings_pawn"
  by (simp add: processRow_def row_kings_pawn_def sample_loadPgn_def chess_after_def
        kings_pawn_def epd_of_def slice_take ply1_def move_uci_def)

lemma processRow_kings_pawn_game:
  "processRow sample_loadPgn row_kings_pawn_game = Inr kings_pawn_game"
  by (simp add: processRow_def row_kings_pawn_game_def sample_loadPgn_def chess_after_def
        kings_pawn_game_def epd_of_def slice_take ply1_def ply2_def move_uci_def)

lemma failing_fetch_delivers:
  "c \<in> set categories \<Longrightarrow> \<not> isl (failing_fetch (category_url c))"
  by (auto simp: failing_fetch_def sample_fetch_def)

lemma failing_fetch_d:
  "failing_fetch (category_url ''d'') = Inr not_found \<and> \<not> ok not_found
   \<and> ''d'' \<in> set categories"
  by (simp add: failing_fetch_def not_found_def categories_def)

lemma failing_fetch_only_d:
  "c \<in> set categories \<Longrightarrow> failing_fetch (category_url c) = Inr res \<Longrightarrow> \<not> ok res \<Longrightarrow>
   c = ''d'' \<and> res = not_found"
  by (auto simp: categories_def failing_fetch_def sample_fetch_def category_url_def respond_def
           split: if_splits)

lemma fetchOpenings_sample:
  "fetchOpenings settle sample_fetch = Inr [row_kings_pawn, row_kings_pawn_game]"
proof -
  have "\<forall>c \<in> set categories. \<exists>res. sample_fetch (category_url c) = Inr res \<and> ok res"
    by (simp add: sample_fetch_ok)
  then have "\<forall>c \<in> set categories. fetchCategory sample_fetch c
      = Inr (drop 1 (split CHR 0x0A (body_text (projr (sample_fetch (category_url c))))))"
    by (auto simp: fetchCategory_ok)
  then have eq: "map (fetchCategory sample_fetch) categories
      = map (\<lambda>c. Inr (drop 1 (split CHR 0x0A (body_text (projr (sample_fetch (category_url c)))))))
          categories"
    by simp
  have "promise_all settle (map (fetchCategory sample_fetch) categories)
      = Inr (map (\<lambda>c. drop 1 (split CHR 0x0A (body_text (projr (sample_fetch (category_url c))))))
               categories)"
    unfolding eq by (subst promise_all_Inr) (auto simp: comp_def)
  then have "fetchOpenings settle sample_fetch
      = Inr (concat (map (\<lambda>c. filter (\<lambda>row. row \<noteq> [])
                 (drop 1 (split CHR 0x0A (body_text (projr (sample_fetch (category_url c)))))))
               categories))"
    by (simp add: fetchOpenings_def filter_concat comp_def)
  then show ?thesis by (simp only: sample_rows)
qed

lemma main_sample: "main settle sample_fetch sample_loadPgn = Inr (writes sample_indexes)"
proof -
  have "map (processRow sample_loadPgn) [row_kings_pawn, row_kings_pawn_game]
          = map Inr [kings_pawn, kings_pawn_game]"
    by (simp add: processRow_kings_pawn processRow_kings_pawn_game)
  from processRows_built [OF this, of handler empty_indexes]
  show ?thesis
    by (simp add: main_def fetchOpenings_sample sample_indexes_def)
qed

lemma sample_eco_keys: "map fst (ecoLookup sample_indexes) = [''B00'', ''C20'']"
  unfolding sample_indexes_def ecoLookup_keys
  by (simp add: kings_pawn_def kings_pawn_game_def)

lemma sample_category_keys: "map fst (categoryLookup sample_indexes) = [''B'', ''C'']"
  unfolding sample_indexes_def categoryLookup_keys
  by (simp add: kings_pawn_def kings_pawn_game_def toUpperCase_def upper_char_def charAt_def)

theorem eco_list_file_witness:
  "main [] sample_fetch sample_loadPgn = Inr (writes sample_indexes)
   \<and> writes sample_indexes ! 4 = (''eco-list.json'', WKeys [''B00'', ''C20''])"
proof -
  have m: "main [] sample_fetch sample_loadPgn = Inr (writes sample_indexes)"
    by (rule main_sample)
  from eco_list_file [OF m] obtain rows rs
    where rows: "fetchOpenings [] sample_fetch = Inr rows"
      and rs: "map (processRow sample_loadPgn) rows = map Inr rs"
      and fifth: "writes sample_indexes ! 4
                   = (''eco-list.json'', WKeys (rev (remdups (rev (map eco rs)))))"
    by blast
  from rows have "rows = [row_kings_pawn, row_kings_pawn_game]"
    by (simp add: fetchOpenings_sample)
  with rs have "rs = [kings_pawn, kings_pawn_game]"
    by (auto simp: processRow_kings_pawn processRow_kings_pawn_game)
  with fifth have "writes sample_indexes ! 4 = (''eco-list.json'', WKeys [''B00'', ''C20''])"
    by (simp add: kings_pawn_def kings_pawn_game_def)
  with m show ?thesis by simp
qed

text \<open>
  The claim as the specification words it, that the fifth file lists the category keys,
  fails on the sample data: the file lists \<open>B00\<close> and \<open>C20\<close>, the category keys are
  \<open>B\<close> and \<open>C\<close>.
\<close>

theorem fifth_file_category_keys_counterexample:
  "main [] sample_fetch sample_loadPgn = Inr (writes sample_indexes)
   \<and> snd (writes sample_indexes ! 4) = WKeys [''B00'', ''C20'']
   \<and> map fst (categoryLookup sample_indexes) = [''B'', ''C'']
   \<and> snd (writes sample_indexes ! 4) \<noteq> WKeys (map fst (categoryLookup sample_indexes))"
  by (simp add: main_sample sample_category_keys writes_def sample_eco_keys)

lemma blank_fetch_ok:
  "c \<in> set categories \<Longrightarrow> fetchCategory blank_fetch c
     = Inr (drop 1 (split CHR 0x0A (body_text (projr (blank_fetch (category_url c))))))"
  by (rule fetchCategory_ok) (simp_all add: blank_fetch_def respond_def)

lemma blank_rows:
  "concat (map (\<lambda>c. filter (\<lambda>row. row \<noteq> [])
            (drop 1 (split CHR 0x0A (body_text (projr (blank_fetch (category_url c)))))))
          categories) = ['' '', [CHR 0x0D]]"
  by (simp add: categories_def blank_fetch_def category_url_def respond_def tsv_header_def)

text \<open>
  The claim as the specification words it, that blank lines are filtered out, fails on a
  category file with a line of one space and a line of one carriage return: both are
  rows of the result. \<open>filter(Boolean)\<close> drops the empty string and nothing else.
\<close>

theorem blank_rows_kept_counterexample:
  "fetchOpenings [] blank_fetch = Inr ['' '', [CHR 0x0D]]"
proof -
  have eq: "map (fetchCategory blank_fetch) categories
      = map (\<lambda>c. Inr (drop 1 (split CHR 0x0A (body_text (projr (blank_fetch (category_url c)))))))
          categories"
    by (simp add: blank_fetch_ok)
  have "promise_all [] (map (fetchCategory blank_fetch) categories)
      = Inr (map (\<lambda>c. drop 1 (split CHR 0x0A (body_text (projr (blank_fetch (category_url c))))))
               categories)"
    unfolding eq by (subst promise_all_Inr) (auto simp: comp_def)
  then have "fetchOpenings [] blank_fetch
      = Inr (concat (map (\<lambda>c. filter (\<lambda>row. row \<noteq> [])
                 (drop 1 (split CHR 0x0A (body_text (projr (blank_fetch (category_url c)))))))
               categories))"
    by (simp add: fetchOpenings_def filter_concat comp_def)
  then show ?thesis by (simp only: blank_rows)
qed

theorem fetchOpenings_all_or_nothing_witness:
  "fetchOpenings [4, 3, 2, 1, 0] failing_fetch
     = Inl (Error ''Failed to fetch category d: Not Found'')
   \<and> main [4, 3, 2, 1, 0] failing_fetch sample_loadPgn
     = Inl (Error ''Failed to fetch category d: Not Found'')
   \<and> fetchOpenings [4, 3, 2, 1, 0] sample_fetch = Inr [row_kings_pawn, row_kings_pawn_game]"
proof -
  note T = fetchOpenings_all_or_nothing [of failing_fetch "[4, 3, 2, 1, 0]" sample_loadPgn]
  from T failing_fetch_d obtain e
    where e: "fetchOpenings [4, 3, 2, 1, 0] failing_fetch = Inl e"
      "main [4, 3, 2, 1, 0] failing_fetch sample_loadPgn = Inl e"
    by blast
  have "\<forall>c \<in> set categories. \<not> isl (failing_fetch (category_url c))"
    by (simp add: failing_fetch_delivers)
  with T e(1) obtain c res
    where "c \<in> set categories" "failing_fetch (category_url c) = Inr res" "\<not> ok res"
      "e = Error (''Failed to fetch category '' @ c @ '': '' @ statusText res)"
    by blast
  with failing_fetch_only_d [of c res]
  have "e = Error ''Failed to fetch category d: Not Found''"
    by (simp add: not_found_def)
  moreover have "\<forall>c \<in> set categories. \<exists>res. sample_fetch (category_url c) = Inr res \<and> ok res"
    by (simp add: sample_fetch_ok)
  with fetchOpenings_all_or_nothing [of sample_fetch "[4, 3, 2, 1, 0]" sample_loadPgn]
  have "fetchOpenings [4, 3, 2, 1, 0] sample_fetch
      = Inr (concat (map (\<lambda>c. filter (\<lambda>row. row \<noteq> [])
                 (drop 1 (split CHR 0x0A (body_text (projr (sample_fetch (category_url c)))))))
               categories))"
    by blast
  then have "fetchOpenings [4, 3, 2, 1, 0] sample_fetch = Inr [row_kings_pawn, row_kings_pawn_game]"
    by (simp only: sample_rows)
  ultimately show ?thesis using e by simp
qed

section \<open>The analyzer: statistics\<close>

lemma bump_counts:
  "total (bump r st) = total st + 1
   \<and> wins (bump r st) + losses (bump r st) + draws (bump r st) = wins st + losses st + draws st + 1
   \<and> wins st \<le> wins (bump r st) \<and> losses st \<le> losses (bump r st)
   \<and> draws st \<le> draws (bump r st)"
  by (cases r) (simp_all add: bump_def)

lemma bump_balanced:
  "total st = wins st + losses st + draws st \<Longrightarrow>
   total (bump r st) = wins (bump r st) + losses (bump r st) + draws (bump r st)"
  using bump_counts [of r st] by simp

lemma tally_skip: "game_opening game = None \<Longrightarrow> tally user game os = os"
  by (simp add: tally_def)

lemma tally_count:
  "game_opening game = Some op \<Longrightarrow>
   tally user game os =
     os(playerColor user game :=
          AList.update (name op)
            (bump (game_result (playerColor user game) game)
               (case map_of (os (playerColor user game)) (name op) of
                  None \<Rightarrow> initialStats | Some st \<Rightarrow> st))
            (os (playerColor user game)))"
  by (simp add: tally_def Let_def)

lemma tally_balanced:
  assumes "\<forall>c n s. map_of (os c) n = Some s \<longrightarrow> total s = wins s + losses s + draws s"
  shows "\<forall>c n s. map_of (tally user game os c) n = Some s
           \<longrightarrow> total s = wins s + losses s + draws s"
proof (cases "game_opening game")
  case None
  with assms show ?thesis by (simp add: tally_skip)
next
  case (Some op)
  let ?old = "case map_of (os (playerColor user game)) (name op) of
                None \<Rightarrow> initialStats | Some st \<Rightarrow> st"
  have "total ?old = wins ?old + losses ?old + draws ?old"
    using assms by (auto simp: initialStats_def split: option.splits)
  then have "total (bump (game_result (playerColor user game) game) ?old)
      = wins (bump (game_result (playerColor user game) game) ?old)
        + losses (bump (game_result (playerColor user game) game) ?old)
        + draws (bump (game_result (playerColor user game) game) ?old)"
    by (rule bump_balanced)
  with assms show ?thesis
    unfolding tally_count [OF Some]
    by (auto simp: update_conv' split: if_splits)
qed

lemma openingStats_snoc:
  "openingStats user (games @ [game]) = tally user game (openingStats user games)"
  by (simp add: openingStats_def)

lemma openingStats_balanced:
  "\<forall>c n s. map_of (openingStats user games c) n = Some s
     \<longrightarrow> total s = wins s + losses s + draws s"
proof (induction games rule: rev_induct)
  case Nil
  then show ?case by (simp add: openingStats_def)
next
  case (snoc game games)
  then show ?case
    unfolding openingStats_snoc by (rule tally_balanced)
qed

text \<open>
  C3. After every prefix of the game list, and so after each game and at the end, every
  accumulator of either color satisfies \<open>total = wins + losses + draws\<close>. Processing a
  counted game raises the total of its bucket by one and the three outcome counters
  together by one, none of them decreasing: exactly one of them is incremented.
\<close>

theorem stats_total_invariant:
  "(\<forall>k c n s. map_of (openingStats user (take k games) c) n = Some s
       \<longrightarrow> total s = wins s + losses s + draws s)
   \<and> (\<forall>os game op. game_opening game = Some op \<longrightarrow>
        (\<exists>old new.
           old = (case map_of (os (playerColor user game)) (name op) of
                    None \<Rightarrow> initialStats | Some st \<Rightarrow> st)
           \<and> map_of (tally user game os (playerColor user game)) (name op) = Some new
           \<and> total new = total old + 1
           \<and> wins new + losses new + draws new = wins old + losses old + draws old + 1
           \<and> wins old \<le> wins new \<and> losses old \<le> losses new \<and> draws old \<le> draws new))"
proof (intro conjI allI impI)
  fix k c n s
  assume "map_of (openingStats user (take k games) c) n = Some s"
  with openingStats_balanced [of user "take k games"]
  show "total s = wins s + losses s + draws s" by blast
next
  fix os :: "color \<Rightarrow> Stats obj" and game :: GameWithOpening and op
  assume op: "game_opening game = Some op"
  let ?old = "case map_of (os (playerColor user game)) (name op) of
                None \<Rightarrow> initialStats | Some st \<Rightarrow> st"
  let ?new = "bump (game_result (playerColor user game) game) ?old"
  have "map_of (tally user game os (playerColor user game)) (name op) = Some ?new"
    unfolding tally_count [OF op] by (simp add: update_conv')
  with bump_counts [of "game_result (playerColor user game) game" ?old]
  show "\<exists>old new.
           old = ?old
           \<and> map_of (tally user game os (playerColor user game)) (name op) = Some new
           \<and> total new = total old + 1
           \<and> wins new + losses new + draws new = wins old + losses old + draws old + 1
           \<and> wins old \<le> wins new \<and> losses old \<le> losses new \<and> draws old \<le> draws new"
    by blast
qed

text \<open>
  C4. A game without a matched opening changes nothing. For a counted game the player's
  color \<open>pc\<close> is white exactly when the lower-cased username of the white side equals the
  lower-cased handle, and black otherwise, whoever plays black. With \<open>mine\<close> the result
  string of that side and \<open>theirs\<close> the other side's, the bucket of the opening under
  \<open>pc\<close> gets its total and one counter incremented: draws when \<open>mine = theirs\<close>, wins
  when they differ and \<open>mine\<close> is \<open>win\<close>, losses otherwise. No other bucket and
  nothing of the other color changes.
\<close>

theorem tally_color_and_outcome:
  "(game_opening game = None \<longrightarrow> tally user game os = os)
   \<and> (\<forall>op. game_opening game = Some op \<longrightarrow>
        (\<exists>pc mine theirs old.
           pc = (if toLowerCase (username (white game)) = toLowerCase user then White else Black)
           \<and> mine = result (if pc = White then white game else black game)
           \<and> theirs = result (if pc = White then black game else white game)
           \<and> old = (case map_of (os pc) (name op) of None \<Rightarrow> initialStats | Some st \<Rightarrow> st)
           \<and> playerColor user game = pc
           \<and> game_result pc game
                = (if mine = theirs then Draw else if mine = ''win'' then Win else Loss)
           \<and> map_of (tally user game os pc) (name op)
                = Some (if mine = theirs
                          then old\<lparr> total := total old + 1, draws := draws old + 1 \<rparr>
                        else if mine = ''win''
                          then old\<lparr> total := total old + 1, wins := wins old + 1 \<rparr>
                        else old\<lparr> total := total old + 1, losses := losses old + 1 \<rparr>)
           \<and> (\<forall>n. n \<noteq> name op \<longrightarrow> map_of (tally user game os pc) n = map_of (os pc) n)
           \<and> tally user game os (opponentColor pc) = os (opponentColor pc)))"
proof (intro conjI allI impI)
  assume "game_opening game = None"
  then show "tally user game os = os" by (rule tally_skip)
next
  fix op
  assume op: "game_opening game = Some op"
  let ?pc = "playerColor user game"
  have pc: "?pc = (if toLowerCase (username (white game)) = toLowerCase user then White else Black)"
    by (simp add: playerColor_def)
  have res: "game_result ?pc game
      = (if result (if ?pc = White then white game else black game)
            = result (if ?pc = White then black game else white game) then Draw
         else if result (if ?pc = White then white game else black game) = ''win'' then Win
         else Loss)"
    by (cases ?pc) (simp_all add: game_result_def side_def opponentColor_def)
  have other: "opponentColor ?pc \<noteq> ?pc"
    by (simp add: opponentColor_def)
  have upd: "map_of (tally user game os ?pc) (name op)
      = Some (bump (game_result ?pc game)
                (case map_of (os ?pc) (name op) of None \<Rightarrow> initialStats | Some st \<Rightarrow> st))"
    unfolding tally_count [OF op] by (simp add: update_conv')
  have rest: "\<forall>n. n \<noteq> name op \<longrightarrow> map_of (tally user game os ?pc) n = map_of (os ?pc) n"
    unfolding tally_count [OF op] by (simp add: update_conv')
  have untouched: "tally user game os (opponentColor ?pc) = os (opponentColor ?pc)"
    unfolding tally_count [OF op] using other by simp
  show "\<exists>pc mine theirs old.
           pc = (if toLowerCase (username (white game)) = toLowerCase user then White else Black)
           \<and> mine = result (if pc = White then white game else black game)
           \<and> theirs = result (if pc = White then black game else white game)
           \<and> old = (case map_of (os pc) (name op) of None \<Rightarrow> initialStats | Some st \<Rightarrow> st)
           \<and> playerColor user game = pc
           \<and> game_result pc game
                = (if mine = theirs then Draw else if mine = ''win'' then Win else Loss)
           \<and> map_of (tally user game os pc) (name op)
                = Some (if mine = theirs
                          then old\<lparr> total := total old + 1, draws := draws old + 1 \<rparr>
                        else if mine = ''win''
                          then old\<lparr> total := total old + 1, wins := wins old + 1 \<rparr>
                        else old\<lparr> total := total old + 1, losses := losses old + 1 \<rparr>)
           \<and> (\<forall>n. n \<noteq> name op \<longrightarrow> map_of (tally user game os pc) n = map_of (os pc) n)
           \<and> tally user game os (opponentColor pc) = os (opponentColor pc)"
    apply (rule exI [of _ ?pc])
    apply (rule exI [of _ "result (if ?pc = White then white game else black game)"])
    apply (rule exI [of _ "result (if ?pc = White then black game else white game)"])
    apply (rule exI [of _ "case map_of (os ?pc) (name op) of None \<Rightarrow> initialStats | Some st \<Rightarrow> st"])
    apply (intro conjI)
            apply (rule pc)
           apply (rule refl)
          apply (rule refl)
         apply (rule refl)
        apply (rule refl)
       apply (rule res)
      apply (simp only: upd res)
      apply (simp add: bump_def)
     apply (rule rest)
    apply (rule untouched)
    done
qed

lemma tally_distinct:
  "\<forall>c. distinct (map fst (os c)) \<Longrightarrow> distinct (map fst (tally user game os c))"
  by (cases "game_opening game") (simp_all add: tally_skip tally_count distinct_update)

lemma openingStats_distinct: "distinct (map fst (openingStats user games c))"
proof -
  have "\<forall>c. distinct (map fst (openingStats user games c))"
  proof (induction games rule: rev_induct)
    case Nil
    then show ?case by (simp add: openingStats_def)
  next
    case (snoc game games)
    then show ?case
      unfolding openingStats_snoc by (blast intro: tally_distinct)
  qed
  then show ?thesis by blast
qed

lemma sortOpenings_set:
  "e \<in> set (sortOpenings fl os) \<Longrightarrow>
   15 < total (stats e) \<and> (openingName e, stats e) \<in> set os
   \<and> winRate e = win_rate fl (stats e)"
  by (auto simp: sortOpenings_def)

lemma sortOpenings_sorted:
  "sorted_wrt (\<lambda>a b. winRate b \<le> winRate a) (sortOpenings fl os)"
proof -
  have "sorted (map (\<lambda>e. - winRate e) (sortOpenings fl os))"
    unfolding sortOpenings_def by (rule sorted_sort_key)
  then show ?thesis by (simp add: sorted_map)
qed

text \<open>
  C2. For every game list, handle and color, the output list is the formatting of the
  entries \<open>es\<close>, the first ten of the sorted openings: it has at most ten elements, every
  entry is an opening of that color's statistics whose total exceeds 15 and carries the
  win rate \<open>wins / total * 100\<close> as the script computes it, and the rates do not increase
  along the list.
\<close>

theorem top_openings_filtered_sorted:
  "\<exists>es. es = take 10 (sortOpenings fl (openingStats user games c))
     \<and> analyzeGames fl user games c = map format_entry es
     \<and> length (analyzeGames fl user games c) \<le> 10
     \<and> (\<forall>e \<in> set es.
           15 < total (stats e)
           \<and> map_of (openingStats user games c) (openingName e) = Some (stats e)
           \<and> winRate e = fl (fl (of_nat (wins (stats e)) / of_nat (total (stats e))) * 100))
     \<and> sorted_wrt (\<lambda>a b. winRate b \<le> winRate a) es"
proof (intro exI conjI ballI)
  let ?es = "take 10 (sortOpenings fl (openingStats user games c))"
  show "?es = ?es" by (rule refl)
  show out: "analyzeGames fl user games c = map format_entry ?es"
    by (simp add: analyzeGames_def slice_take)
  show "length (analyzeGames fl user games c) \<le> 10"
    unfolding out by simp
  show "sorted_wrt (\<lambda>a b. winRate b \<le> winRate a) ?es"
    by (rule sorted_wrt_take [OF sortOpenings_sorted])
  fix e assume "e \<in> set ?es"
  then have "e \<in> set (sortOpenings fl (openingStats user games c))"
    by (rule in_set_takeD)
  from sortOpenings_set [OF this]
  have e: "15 < total (stats e)" "(openingName e, stats e) \<in> set (openingStats user games c)"
    "winRate e = win_rate fl (stats e)"
    by simp_all
  show "15 < total (stats e)" by (rule e(1))
  show "map_of (openingStats user games c) (openingName e) = Some (stats e)"
    using e(2) openingStats_distinct by simp
  show "winRate e = fl (fl (of_nat (wins (stats e)) / of_nat (total (stats e))) * 100)"
    using e(1) e(3) by (simp add: win_rate_def)
qed

section \<open>The statistics of the sample games\<close>

lemma replicate_numeral: "replicate (numeral k) x = x # replicate (pred_numeral k) x"
  by (simp add: numeral_eq_Suc)

lemma lower_samples:
  "toLowerCase ''Alice'' = ''alice''" "toLowerCase ''alice'' = ''alice''"
  "toLowerCase ''ALICE'' = ''alice''" "toLowerCase ''bob'' = ''bob''"
  by (simp_all add: toLowerCase_def lower_char_def)

lemmas sample_game_defs =
  played_def player_def playerColor_def game_result_def side_def opponentColor_def
  kings_pawn_game_def kings_pawn_def lower_samples Let_def

lemma tally_white_win:
  "tally ''alice'' white_win os =
     os(White := AList.update ''King's Pawn Game''
          (bump Win (case map_of (os White) ''King's Pawn Game'' of
                       None \<Rightarrow> initialStats | Some st \<Rightarrow> st)) (os White))"
  by (simp add: tally_def white_win_def sample_game_defs)

lemma tally_white_loss:
  "tally ''alice'' white_loss os =
     os(White := AList.update ''King's Pawn Game''
          (bump Loss (case map_of (os White) ''King's Pawn Game'' of
                       None \<Rightarrow> initialStats | Some st \<Rightarrow> st)) (os White))"
  by (simp add: tally_def white_loss_def sample_game_defs)

lemma tally_white_win_kp:
  "tally ''alice'' white_win_kp os =
     os(White := AList.update ''King's Pawn''
          (bump Win (case map_of (os White) ''King's Pawn'' of
                       None \<Rightarrow> initialStats | Some st \<Rightarrow> st)) (os White))"
  by (simp add: tally_def white_win_kp_def sample_game_defs)

lemma tally_black_draw:
  "tally ''alice'' black_draw os =
     os(Black := AList.update ''King's Pawn Game''
          (bump Draw (case map_of (os Black) ''King's Pawn Game'' of
                       None \<Rightarrow> initialStats | Some st \<Rightarrow> st)) (os Black))"
  by (simp add: tally_def black_draw_def sample_game_defs)

lemma tally_stranger_game:
  "tally ''alice'' stranger_game os =
     os(Black := AList.update ''King's Pawn''
          (bump Loss (case map_of (os Black) ''King's Pawn'' of
                       None \<Rightarrow> initialStats | Some st \<Rightarrow> st)) (os Black))"
  by (simp add: tally_def stranger_game_def sample_game_defs)

lemma tally_unmatched_game: "tally ''alice'' unmatched_game os = os"
  by (simp add: tally_def unmatched_game_def played_def)

lemmas tally_samples =
  tally_white_win tally_white_loss tally_white_win_kp tally_black_draw tally_stranger_game
  tally_unmatched_game

lemma sample_stats_white:
  "openingStats ''alice'' sample_games White =
     [(''King's Pawn Game'', \<lparr> total = 16, wins = 12, losses = 4, draws = 0 \<rparr>),
      (''King's Pawn'', \<lparr> total = 16, wins = 16, losses = 0, draws = 0 \<rparr>)]"
  by (simp add: openingStats_def sample_games_def replicate_numeral tally_samples bump_def
        initialStats_def del: fold_replicate)

lemma sample_top_white:
  "take 10 (sortOpenings (\<lambda>x. x) (openingStats ''alice'' sample_games White))
     = [top_kings_pawn, top_kings_pawn_game]"
  unfolding sample_stats_white
  by (simp add: sortOpenings_def win_rate_def top_kings_pawn_def top_kings_pawn_game_def)

theorem top_openings_filtered_sorted_witness:
  "analyzeGames (\<lambda>x. x) ''alice'' sample_games White
     = map format_entry [top_kings_pawn, top_kings_pawn_game]
   \<and> 15 < total (stats top_kings_pawn) \<and> 15 < total (stats top_kings_pawn_game)
   \<and> winRate top_kings_pawn_game \<le> winRate top_kings_pawn
   \<and> map_of (openingStats ''alice'' sample_games White) (openingName top_kings_pawn_game)
       = Some (stats top_kings_pawn_game)"
proof -
  from top_openings_filtered_sorted [of "\<lambda>x. x" "''alice''" sample_games White]
  obtain es where es: "es = take 10 (sortOpenings (\<lambda>x. x) (openingStats ''alice'' sample_games White))"
    and out: "analyzeGames (\<lambda>x. x) ''alice'' sample_games White = map format_entry es"
    and each: "\<forall>e \<in> set es. 15 < total (stats e)
           \<and> map_of (openingStats ''alice'' sample_games White) (openingName e) = Some (stats e)
           \<and> winRate e = (of_nat (wins (stats e)) / of_nat (total (stats e))) * 100"
    and ordered: "sorted_wrt (\<lambda>a b. winRate b \<le> winRate a) es"
    by blast
  from es have es': "es = [top_kings_pawn, top_kings_pawn_game]"
    by (simp only: sample_top_white)
  from each have "15 < total (stats top_kings_pawn)" "15 < total (stats top_kings_pawn_game)"
    "map_of (openingStats ''alice'' sample_games White) (openingName top_kings_pawn_game)
       = Some (stats top_kings_pawn_game)"
    unfolding es' by simp_all
  moreover from ordered have "winRate top_kings_pawn_game \<le> winRate top_kings_pawn"
    unfolding es' by simp
  ultimately show ?thesis using out es' by simp
qed

theorem stats_total_invariant_witness:
  "(\<exists>s. map_of (openingStats ''alice'' sample_games White) ''King's Pawn Game'' = Some s
        \<and> total s = 16 \<and> total s = wins s + losses s + draws s)
   \<and> (\<exists>new. map_of (tally ''alice'' white_win (\<lambda>c. []) White) ''King's Pawn Game'' = Some new
        \<and> total new = 1 \<and> wins new + losses new + draws new = 1)"
proof -
  note T = stats_total_invariant [of "''alice''" sample_games]
  have stored: "map_of (openingStats ''alice'' (take (length sample_games) sample_games) White)
      ''King's Pawn Game'' = Some \<lparr> total = 16, wins = 12, losses = 4, draws = 0 \<rparr>"
    by (simp add: sample_stats_white)
  with T have "total \<lparr> total = 16, wins = 12, losses = 4, draws = (0::nat) \<rparr>
      = wins \<lparr> total = 16, wins = 12, losses = 4, draws = (0::nat) \<rparr>
        + losses \<lparr> total = 16, wins = 12, losses = 4, draws = (0::nat) \<rparr>
        + draws \<lparr> total = 16, wins = 12, losses = 4, draws = (0::nat) \<rparr>"
    by blast
  with stored have first: "\<exists>s. map_of (openingStats ''alice'' sample_games White) ''King's Pawn Game'' = Some s
        \<and> total s = 16 \<and> total s = wins s + losses s + draws s"
    by simp
  have op: "game_opening white_win = Some kings_pawn_game"
    by (simp add: white_win_def played_def)
  have pc: "playerColor ''alice'' white_win = White"
    by (simp add: white_win_def sample_game_defs)
  have nm: "name kings_pawn_game = ''King's Pawn Game''"
    by (simp add: kings_pawn_game_def)
  from T op obtain old new
    where "old = (case map_of ((\<lambda>c. []) (playerColor ''alice'' white_win)) (name kings_pawn_game) of
                    None \<Rightarrow> initialStats | Some st \<Rightarrow> st)"
      "map_of (tally ''alice'' white_win (\<lambda>c. []) (playerColor ''alice'' white_win))
         (name kings_pawn_game) = Some new"
      "total new = total old + 1"
      "wins new + losses new + draws new = wins old + losses old + draws old + 1"
    by blast
  then have "map_of (tally ''alice'' white_win (\<lambda>c. []) White) ''King's Pawn Game'' = Some new
        \<and> total new = 1 \<and> wins new + losses new + draws new = 1"
    by (simp add: pc nm initialStats_def)
  with first show ?thesis by blast
qed

theorem tally_color_and_outcome_witness:
  "playerColor ''alice'' stranger_game = Black
   \<and> map_of (tally ''alice'' stranger_game (\<lambda>c. []) Black) ''King's Pawn''
       = Some \<lparr> total = 1, wins = 0, losses = 1, draws = 0 \<rparr>
   \<and> tally ''alice'' stranger_game (\<lambda>c. []) White = []
   \<and> tally ''alice'' unmatched_game (\<lambda>c. []) = (\<lambda>c. [])"
proof -
  have op: "game_opening stranger_game = Some kings_pawn"
    by (simp add: stranger_game_def played_def)
  have facts: "toLowerCase (username (white stranger_game)) \<noteq> toLowerCase ''alice''"
    "result (black stranger_game) = ''resigned''" "result (white stranger_game) = ''win''"
    "name kings_pawn = ''King's Pawn''"
    by (simp_all add: stranger_game_def sample_game_defs)
  from tally_color_and_outcome [of stranger_game "''alice''" "\<lambda>c. []"] op
  obtain pc mine theirs old
    where "pc = (if toLowerCase (username (white stranger_game)) = toLowerCase ''alice''
                 then White else Black)"
      "mine = result (if pc = White then white stranger_game else black stranger_game)"
      "theirs = result (if pc = White then black stranger_game else white stranger_game)"
      "old = (case map_of ((\<lambda>c. []) pc) (name kings_pawn) of
                None \<Rightarrow> initialStats | Some st \<Rightarrow> st)"
      "playerColor ''alice'' stranger_game = pc"
      "map_of (tally ''alice'' stranger_game (\<lambda>c. []) pc) (name kings_pawn)
         = Some (if mine = theirs
                   then old\<lparr> total := total old + 1, draws := draws old + 1 \<rparr>
                 else if mine = ''win''
                   then old\<lparr> total := total old + 1, wins := wins old + 1 \<rparr>
                 else old\<lparr> total := total old + 1, losses := losses old + 1 \<rparr>)"
      "tally ''alice'' stranger_game (\<lambda>c. []) (opponentColor pc) = (\<lambda>c. []) (opponentColor pc)"
    by blast
  then have "playerColor ''alice'' stranger_game = Black
      \<and> map_of (tally ''alice'' stranger_game (\<lambda>c. []) Black) ''King's Pawn''
          = Some \<lparr> total = 1, wins = 0, losses = 1, draws = 0 \<rparr>
      \<and> tally ''alice'' stranger_game (\<lambda>c. []) White = []"
    by (simp add: facts initialStats_def opponentColor_def)
  moreover have "game_opening unmatched_game = None"
    by (simp add: unmatched_game_def played_def)
  with tally_color_and_outcome [of unmatched_game "''alice''" "\<lambda>c. []"]
  have "tally ''alice'' unmatched_game (\<lambda>c. []) = (\<lambda>c. [])"
    by blast
  ultimately show ?thesis by blast
qed

section \<open>The analyzer: fetching the games\<close>

lemma fetchGames_parsed:
  "fetch (archives_url user) = Inr res \<Longrightarrow> body_json res = Some j \<Longrightarrow>
   archiveSchema (Some j) = Some archives \<Longrightarrow>
   fetchGames settle fetch loadPgn idx user =
     (case promise_all settle
             (map (fetchArchive fetch loadPgn idx) (drop (length archives - 6) archives)) of
        Inl e \<Rightarrow> Inl e
      | Inr gamess \<Rightarrow> Inr (concat gamess))"
  by (simp add: fetchGames_def res_json_def parse_def slice_last6)

lemma fetchArchive_cong:
  "fetch' u = fetch u \<Longrightarrow> fetchArchive fetch' loadPgn idx u = fetchArchive fetch loadPgn idx u"
  by (simp add: fetchArchive_def)

text \<open>
  C9. Once the archive list has been fetched and parsed, \<open>fetchGames\<close> maps over
  \<open>recent\<close>, the last \<open>min n 6\<close> URLs of the \<open>n\<close> in the list, which is the whole list
  when \<open>n \<le> 6\<close>: its result is \<open>Promise.all\<close> over exactly these archives, it is the
  concatenation of their games when each of them yields games (a short list neither fails
  nor is padded), and it does not depend on what the network holds at any other URL.
\<close>

theorem fetchGames_recent_archives:
  "fetch (archives_url user) = Inr res \<and> body_json res = Some j
     \<and> archiveSchema (Some j) = Some archives \<longrightarrow>
   (\<exists>recent older.
      recent = drop (length archives - 6) archives
      \<and> archives = older @ recent
      \<and> length recent = min (length archives) 6
      \<and> (length archives \<le> 6 \<longrightarrow> recent = archives)
      \<and> fetchGames settle fetch loadPgn idx user =
           (case promise_all settle (map (fetchArchive fetch loadPgn idx) recent) of
              Inl e \<Rightarrow> Inl e
            | Inr gamess \<Rightarrow> Inr (concat gamess))
      \<and> ((\<forall>u \<in> set recent. \<not> isl (fetchArchive fetch loadPgn idx u)) \<longrightarrow>
            fetchGames settle fetch loadPgn idx user =
              Inr (concat (map (\<lambda>u. projr (fetchArchive fetch loadPgn idx u)) recent)))
      \<and> (\<forall>fetch'. fetch' (archives_url user) = fetch (archives_url user)
                    \<and> (\<forall>u \<in> set recent. fetch' u = fetch u) \<longrightarrow>
            fetchGames settle fetch' loadPgn idx user = fetchGames settle fetch loadPgn idx user))"
proof (intro impI)
  assume a: "fetch (archives_url user) = Inr res \<and> body_json res = Some j
     \<and> archiveSchema (Some j) = Some archives"
  then have a1: "fetch (archives_url user) = Inr res" and a2: "body_json res = Some j"
    and a3: "archiveSchema (Some j) = Some archives"
    by simp_all
  let ?recent = "drop (length archives - 6) archives"
  have parsed: "fetchGames settle fetch loadPgn idx user =
           (case promise_all settle (map (fetchArchive fetch loadPgn idx) ?recent) of
              Inl e \<Rightarrow> Inl e
            | Inr gamess \<Rightarrow> Inr (concat gamess))"
    by (rule fetchGames_parsed [where fetch = fetch, OF a1 a2 a3])
  have suffix: "archives = take (length archives - 6) archives @ ?recent"
    by simp
  have len: "length ?recent = min (length archives) 6"
    by simp
  have all: "length archives \<le> 6 \<longrightarrow> ?recent = archives"
    by simp
  have success: "(\<forall>u \<in> set ?recent. \<not> isl (fetchArchive fetch loadPgn idx u)) \<longrightarrow>
            fetchGames settle fetch loadPgn idx user =
              Inr (concat (map (\<lambda>u. projr (fetchArchive fetch loadPgn idx u)) ?recent))"
  proof
    assume "\<forall>u \<in> set ?recent. \<not> isl (fetchArchive fetch loadPgn idx u)"
    then have "\<forall>r \<in> set (map (fetchArchive fetch loadPgn idx) ?recent). \<not> isl r"
      by simp
    from promise_all_Inr [OF this, of settle] parsed
    show "fetchGames settle fetch loadPgn idx user =
              Inr (concat (map (\<lambda>u. projr (fetchArchive fetch loadPgn idx u)) ?recent))"
      by (simp add: comp_def)
  qed
  have indep: "\<forall>fetch'. fetch' (archives_url user) = fetch (archives_url user)
                    \<and> (\<forall>u \<in> set ?recent. fetch' u = fetch u) \<longrightarrow>
            fetchGames settle fetch' loadPgn idx user = fetchGames settle fetch loadPgn idx user"
  proof (intro allI impI)
    fix fetch'
    assume f: "fetch' (archives_url user) = fetch (archives_url user)
                    \<and> (\<forall>u \<in> set ?recent. fetch' u = fetch u)"
    then have "\<forall>u \<in> set ?recent.
        fetchArchive fetch' loadPgn idx u = fetchArchive fetch loadPgn idx u"
      by (blast intro: fetchArchive_cong)
    then have meq: "map (fetchArchive fetch' loadPgn idx) ?recent
        = map (fetchArchive fetch loadPgn idx) ?recent"
      by simp
    from f a1 have "fetch' (archives_url user) = Inr res"
      by simp
    then have parsed': "fetchGames settle fetch' loadPgn idx user =
           (case promise_all settle (map (fetchArchive fetch' loadPgn idx) ?recent) of
              Inl e \<Rightarrow> Inl e
            | Inr gamess \<Rightarrow> Inr (concat gamess))"
      by (rule fetchGames_parsed [where fetch = fetch', OF _ a2 a3])
    show "fetchGames settle fetch' loadPgn idx user
        = fetchGames settle fetch loadPgn idx user"
      unfolding parsed' parsed meq by (rule refl)
  qed
  show "\<exists>recent older.
      recent = drop (length archives - 6) archives
      \<and> archives = older @ recent
      \<and> length recent = min (length archives) 6
      \<and> (length archives \<le> 6 \<longrightarrow> recent = archives)
      \<and> fetchGames settle fetch loadPgn idx user =
           (case promise_all settle (map (fetchArchive fetch loadPgn idx) recent) of
              Inl e \<Rightarrow> Inl e
            | Inr gamess \<Rightarrow> Inr (concat gamess))
      \<and> ((\<forall>u \<in> set recent. \<not> isl (fetchArchive fetch loadPgn idx u)) \<longrightarrow>
            fetchGames settle fetch loadPgn idx user =
              Inr (concat (map (\<lambda>u. projr (fetchArchive fetch loadPgn idx u)) recent)))
      \<and> (\<forall>fetch'. fetch' (archives_url user) = fetch (archives_url user)
                    \<and> (\<forall>u \<in> set recent. fetch' u = fetch u) \<longrightarrow>
            fetchGames settle fetch' loadPgn idx user = fetchGames settle fetch loadPgn idx user)"
    apply (rule exI [of _ ?recent])
    apply (rule exI [of _ "take (length archives - 6) archives"])
    apply (intro conjI)
          apply (rule refl)
         apply (rule suffix)
        apply (rule len)
       apply (rule all)
      apply (rule parsed)
     apply (rule success)
    apply (rule indep)
    done
qed

lemma identifyOpening_Inl:
  "identifyOpening loadPgn idx p = Inl e \<Longrightarrow> p \<noteq> [] \<and> loadPgn p = Inl e"
  by (auto simp: identifyOpening_def split: if_splits sum.splits)

lemma attach_openings_Inl:
  "attach_openings loadPgn idx games results = Inl e \<Longrightarrow>
   \<exists>g \<in> set games. rules g = ''chess'' \<and> game_pgn g \<noteq> [] \<and> loadPgn (game_pgn g) = Inl e"
proof (induction games arbitrary: results)
  case Nil
  then show ?case by simp
next
  case (Cons game games)
  show ?case
  proof (cases "rules game = ''chess''")
    case False
    with Cons.prems have "attach_openings loadPgn idx games results = Inl e"
      by simp
    from Cons.IH [OF this] show ?thesis by auto
  next
    case True
    show ?thesis
    proof (cases "identifyOpening loadPgn idx (game_pgn game)")
      case (Inl e')
      with True Cons.prems have "e' = e" by simp
      with Inl identifyOpening_Inl [of loadPgn idx "game_pgn game" e] True
      show ?thesis by auto
    next
      case (Inr op)
      with True Cons.prems have "attach_openings loadPgn idx games
          (results @ [Game.extend game (GameWithOpening.fields op)]) = Inl e"
        by simp
      from Cons.IH [OF this] show ?thesis by auto
    qed
  qed
qed

lemma fetchArchive_valid:
  "fetch u = Inr res \<Longrightarrow> body_json res = Some j \<Longrightarrow> gamesDataSchema (Some j) = Some games \<Longrightarrow>
   fetchArchive fetch loadPgn idx u = attach_openings loadPgn idx games []"
  by (simp add: fetchArchive_def res_json_def parse_def)

lemma fetchArchive_Inl:
  assumes "fetchArchive fetch loadPgn idx u = Inl e"
  shows "fetch u = Inl e
     \<or> (\<exists>r. fetch u = Inr r \<and> body_json r = None \<and> e = SyntaxError)
     \<or> (\<exists>r b. fetch u = Inr r \<and> body_json r = Some b
            \<and> gamesDataSchema (Some b) = None \<and> e = ZodError)
     \<or> (\<exists>r b games g. fetch u = Inr r \<and> body_json r = Some b
            \<and> gamesDataSchema (Some b) = Some games \<and> g \<in> set games
            \<and> rules g = ''chess'' \<and> game_pgn g \<noteq> []
            \<and> loadPgn (game_pgn g) = Inl e)"
proof (cases "fetch u")
  case (Inl e')
  with assms show ?thesis by (simp add: fetchArchive_def)
next
  case (Inr r)
  show ?thesis
  proof (cases "body_json r")
    case None
    with Inr assms show ?thesis by (simp add: fetchArchive_def res_json_def)
  next
    case (Some b)
    show ?thesis
    proof (cases "gamesDataSchema (Some b)")
      case None
      with Inr Some assms show ?thesis
        by (simp add: fetchArchive_def res_json_def parse_def)
    next
      case (Some games)
      with Inr \<open>body_json r = Some b\<close> assms
      have "attach_openings loadPgn idx games [] = Inl e"
        by (simp add: fetchArchive_def res_json_def parse_def)
      from attach_openings_Inl [OF this] Inr \<open>body_json r = Some b\<close> Some
      show ?thesis by blast
    qed
  qed
qed

lemma fetchGames_Inl:
  assumes "fetchGames settle fetch loadPgn idx user = Inl e"
  shows "fetch (archives_url user) = Inl e
     \<or> (\<exists>res. fetch (archives_url user) = Inr res \<and> body_json res = None \<and> e = SyntaxError)
     \<or> (\<exists>res j. fetch (archives_url user) = Inr res \<and> body_json res = Some j
            \<and> archiveSchema (Some j) = None \<and> e = ZodError)
     \<or> (\<exists>res j archives u. fetch (archives_url user) = Inr res \<and> body_json res = Some j
            \<and> archiveSchema (Some j) = Some archives
            \<and> u \<in> set (drop (length archives - 6) archives)
            \<and> (fetch u = Inl e
               \<or> (\<exists>r. fetch u = Inr r \<and> body_json r = None \<and> e = SyntaxError)
               \<or> (\<exists>r b. fetch u = Inr r \<and> body_json r = Some b
                      \<and> gamesDataSchema (Some b) = None \<and> e = ZodError)
               \<or> (\<exists>r b games g. fetch u = Inr r \<and> body_json r = Some b
                      \<and> gamesDataSchema (Some b) = Some games \<and> g \<in> set games
                      \<and> rules g = ''chess'' \<and> game_pgn g \<noteq> []
                      \<and> loadPgn (game_pgn g) = Inl e)))"
proof (cases "fetch (archives_url user)")
  case (Inl e')
  with assms show ?thesis by (simp add: fetchGames_def)
next
  case (Inr res)
  show ?thesis
  proof (cases "body_json res")
    case None
    with Inr assms show ?thesis by (simp add: fetchGames_def res_json_def)
  next
    case (Some j)
    show ?thesis
    proof (cases "archiveSchema (Some j)")
      case None
      with Inr Some assms show ?thesis
        by (simp add: fetchGames_def res_json_def parse_def)
    next
      case (Some archives)
      let ?recent = "drop (length archives - 6) archives"
      from fetchGames_parsed [where fetch = fetch, OF Inr \<open>body_json res = Some j\<close> Some] assms
      have "promise_all settle (map (fetchArchive fetch loadPgn idx) ?recent) = Inl e"
        by (simp split: sum.splits)
      with promise_all_cases [of settle "map (fetchArchive fetch loadPgn idx) ?recent" _ e]
      have "Inl e \<in> set (map (fetchArchive fetch loadPgn idx) ?recent)"
        by blast
      then obtain u where u: "u \<in> set ?recent" "fetchArchive fetch loadPgn idx u = Inl e"
        by auto
      from fetchArchive_Inl [OF u(2)] u(1) Inr \<open>body_json res = Some j\<close> Some
      show ?thesis by blast
    qed
  qed
qed

lemma fetchArchive_same_body:
  "rel_sum (=) (\<lambda>r r'. body_json r = body_json r') (fetch u) (fetch' u) \<Longrightarrow>
   fetchArchive fetch' loadPgn idx u = fetchArchive fetch loadPgn idx u"
  by (cases "fetch u"; cases "fetch' u") (simp_all add: fetchArchive_def res_json_def)

lemma fetchGames_same_body:
  assumes "\<forall>u. rel_sum (=) (\<lambda>r r'. body_json r = body_json r') (fetch u) (fetch' u)"
  shows "fetchGames settle fetch' loadPgn idx user = fetchGames settle fetch loadPgn idx user"
proof -
  have eqA: "fetchArchive fetch' loadPgn idx = fetchArchive fetch loadPgn idx"
    using assms by (auto intro: fetchArchive_same_body)
  have rel: "rel_sum (=) (\<lambda>r r'. body_json r = body_json r')
      (fetch (archives_url user)) (fetch' (archives_url user))"
    using assms by blast
  show ?thesis
  proof (cases "fetch (archives_url user)")
    case (Inl e)
    with rel have "fetch' (archives_url user) = Inl e"
      by (cases "fetch' (archives_url user)") simp_all
    with Inl show ?thesis by (simp add: fetchGames_def)
  next
    case (Inr r)
    with rel obtain r' where r': "fetch' (archives_url user) = Inr r'"
      and same: "body_json r = body_json r'"
      by (cases "fetch' (archives_url user)") simp_all
    from same have "res_json r' = res_json r"
      by (simp add: res_json_def)
    with Inr r' show ?thesis
      unfolding fetchGames_def eqA by simp
  qed
qed

text \<open>
  C10, as the code has it. \<open>fetchGames\<close> reads of a response only its JSON body: two
  networks that deliver, at every URL, the same rejection or responses with the same JSON
  body (whatever their status) give the same result, and an archive response whose body
  matches the schema is handed to the opening identification whatever its status. A
  failure of \<open>fetchGames\<close> is one of these, and never an error made from a status: the
  rejection of the fetch of the archive list; a JSON-parse error or a schema-validation
  error of its body; or, for one of the last six archives \<open>u\<close> of the list, the rejection
  of the fetch of \<open>u\<close>, a JSON-parse error or a schema-validation error of its body, or
  the error the replay engine throws on the non-empty move text of a game of that archive
  whose rules are standard chess.
\<close>

theorem fetchGames_ignores_status:
  "(\<forall>fetch'. (\<forall>u. rel_sum (=) (\<lambda>r r'. body_json r = body_json r') (fetch u) (fetch' u)) \<longrightarrow>
      fetchGames settle fetch' loadPgn idx user = fetchGames settle fetch loadPgn idx user)
   \<and> (\<forall>u res j games. fetch u = Inr res \<and> body_json res = Some j
          \<and> gamesDataSchema (Some j) = Some games \<longrightarrow>
        fetchArchive fetch loadPgn idx u = attach_openings loadPgn idx games [])
   \<and> (\<forall>e. fetchGames settle fetch loadPgn idx user = Inl e \<longrightarrow>
        fetch (archives_url user) = Inl e
        \<or> (\<exists>res. fetch (archives_url user) = Inr res \<and> body_json res = None
               \<and> e = SyntaxError)
        \<or> (\<exists>res j. fetch (archives_url user) = Inr res \<and> body_json res = Some j
               \<and> archiveSchema (Some j) = None \<and> e = ZodError)
        \<or> (\<exists>res j archives u. fetch (archives_url user) = Inr res \<and> body_json res = Some j
               \<and> archiveSchema (Some j) = Some archives
               \<and> u \<in> set (drop (length archives - 6) archives)
               \<and> (fetch u = Inl e
                  \<or> (\<exists>r. fetch u = Inr r \<and> body_json r = None \<and> e = SyntaxError)
                  \<or> (\<exists>r b. fetch u = Inr r \<and> body_json r = Some b
                         \<and> gamesDataSchema (Some b) = None \<and> e = ZodError)
                  \<or> (\<exists>r b games g. fetch u = Inr r \<and> body_json r = Some b
                         \<and> gamesDataSchema (Some b) = Some games \<and> g \<in> set games
                         \<and> rules g = ''chess'' \<and> game_pgn g \<noteq> []
                         \<and> loadPgn (game_pgn g) = Inl e))))"
proof (intro conjI allI impI)
  fix fetch' :: "string \<Rightarrow> js_error + Response"
  assume "\<forall>u. rel_sum (=) (\<lambda>r r'. body_json r = body_json r') (fetch u) (fetch' u)"
  then show "fetchGames settle fetch' loadPgn idx user = fetchGames settle fetch loadPgn idx user"
    by (rule fetchGames_same_body)
next
  fix u and res :: Response and j games
  assume "fetch u = Inr res \<and> body_json res = Some j \<and> gamesDataSchema (Some j) = Some games"
  then show "fetchArchive fetch loadPgn idx u = attach_openings loadPgn idx games []"
    by (simp add: fetchArchive_valid)
next
  fix e
  assume "fetchGames settle fetch loadPgn idx user = Inl e"
  then show "fetch (archives_url user) = Inl e
        \<or> (\<exists>res. fetch (archives_url user) = Inr res \<and> body_json res = None
               \<and> e = SyntaxError)
        \<or> (\<exists>res j. fetch (archives_url user) = Inr res \<and> body_json res = Some j
               \<and> archiveSchema (Some j) = None \<and> e = ZodError)
        \<or> (\<exists>res j archives u. fetch (archives_url user) = Inr res \<and> body_json res = Some j
               \<and> archiveSchema (Some j) = Some archives
               \<and> u \<in> set (drop (length archives - 6) archives)
               \<and> (fetch u = Inl e
                  \<or> (\<exists>r. fetch u = Inr r \<and> body_json r = None \<and> e = SyntaxError)
                  \<or> (\<exists>r b. fetch u = Inr r \<and> body_json r = Some b
                         \<and> gamesDataSchema (Some b) = None \<and> e = ZodError)
                  \<or> (\<exists>r b games g. fetch u = Inr r \<and> body_json r = Some b
                         \<and> gamesDataSchema (Some b) = Some games \<and> g \<in> set games
                         \<and> rules g = ''chess'' \<and> game_pgn g \<noteq> []
                         \<and> loadPgn (game_pgn g) = Inl e)))"
    by (rule fetchGames_Inl)
qed

section \<open>Fetching on the sample network\<close>

lemma archives_parsed: "archiveSchema (Some archives_json) = Some [month1, month2]"
  by (simp add: archives_json_def field_def)

lemma month1_parsed: "gamesDataSchema (Some (JObj [(''games'', JArr [])])) = Some []"
  by (simp add: field_def)

lemma player_parsed: "playerSchema (Some (player_json u r)) = Some (player u r)"
  by (simp add: player_json_def player_def field_def)

lemma game_parsed:
  "gameSchema (Some (game_json p (player_json ''Alice'' ''win'') (player_json ''bob'' ''checkmated'')))
     = Some (parsed_game p)"
  by (simp add: game_json_def field_def player_parsed parsed_game_def accuraciesSchema_def)

lemma month2_parsed: "gamesDataSchema (Some (month2_json p)) = Some [parsed_game p]"
  by (simp add: month2_json_def field_def game_parsed)

lemma sample_urls:
  "month1 \<noteq> archives_url ''alice''" "month2 \<noteq> archives_url ''alice''" "month2 \<noteq> month1"
  by (simp_all add: month1_def month2_def archives_url_def)

lemma games_fetch_values:
  "games_fetch code reason p (archives_url ''alice'') = Inr (json_response code reason archives_json)"
  "games_fetch code reason p month1 = Inr (json_response code reason (JObj [(''games'', JArr [])]))"
  "games_fetch code reason p month2 = Inr (json_response code reason (month2_json p))"
  by (simp_all add: games_fetch_def sample_urls)

lemma body_json_response: "body_json (json_response code reason j) = Some j"
  by (simp add: json_response_def)

lemma identify_e4_e5:
  "identifyOpening sample_loadPgn sample_index ''1. e4 e5'' = Inr (Some kings_pawn_game)"
proof -
  have "identify_loop sample_index ([ply1] @ [ply2]) = Some kings_pawn_game"
    unfolding identify_loop_snoc by (simp add: sample_index_ply2)
  then show ?thesis
    by (simp add: identifyOpening_def sample_loadPgn_def chess_after_def)
qed

lemma identify_Ke2:
  "identifyOpening sample_loadPgn sample_index ''1. Ke2''
     = Inl (Error ''Invalid move in PGN: Ke2'')"
  by (simp add: identifyOpening_def sample_loadPgn_def)

lemma extend_parsed_game:
  "Game.extend (parsed_game ''1. e4 e5'') (GameWithOpening.fields (Some kings_pawn_game)) = white_win"
  by (simp add: parsed_game_def white_win_def played_def Game.extend_def GameWithOpening.fields_def)

lemma fetchArchive_month1:
  "fetchArchive (games_fetch code reason p) sample_loadPgn sample_index month1 = Inr []"
  by (simp add: fetchArchive_def games_fetch_values res_json_def body_json_response parse_def
        field_def)

lemma fetchArchive_month2:
  "fetchArchive (games_fetch code reason ''1. e4 e5'') sample_loadPgn sample_index month2
     = Inr [white_win]"
proof -
  have "rules (parsed_game ''1. e4 e5'') = ''chess''"
    "game_pgn (parsed_game ''1. e4 e5'') = ''1. e4 e5''"
    by (simp_all add: parsed_game_def)
  then show ?thesis
    by (simp add: fetchArchive_def games_fetch_values res_json_def body_json_response parse_def
          month2_parsed identify_e4_e5 extend_parsed_game)
qed

lemma fetchArchive_month2_Ke2:
  "fetchArchive (games_fetch code reason ''1. Ke2'') sample_loadPgn sample_index month2
     = Inl (Error ''Invalid move in PGN: Ke2'')"
proof -
  have "rules (parsed_game ''1. Ke2'') = ''chess''"
    "game_pgn (parsed_game ''1. Ke2'') = ''1. Ke2''"
    by (simp_all add: parsed_game_def)
  then show ?thesis
    by (simp add: fetchArchive_def games_fetch_values res_json_def body_json_response parse_def
          month2_parsed identify_Ke2)
qed

lemma fetchGames_sample_archives:
  "fetchGames settle (games_fetch code reason p) loadPgn idx ''alice'' =
     (case promise_all settle
             [fetchArchive (games_fetch code reason p) loadPgn idx month1,
              fetchArchive (games_fetch code reason p) loadPgn idx month2] of
        Inl e \<Rightarrow> Inl e
      | Inr gamess \<Rightarrow> Inr (concat gamess))"
  by (simp add: fetchGames_def games_fetch_values res_json_def body_json_response parse_def
        archives_parsed slice_last6 del: archiveSchema.simps)

lemma fetchGames_sample_ok:
  "fetchGames [1, 0] (games_fetch 200 ''OK'' ''1. e4 e5'') sample_loadPgn sample_index ''alice''
     = Inr [white_win]"
  unfolding fetchGames_sample_archives fetchArchive_month1 fetchArchive_month2
  by (simp add: promise_all_def)

lemma fetchGames_sample_Ke2:
  "fetchGames [1, 0] (games_fetch 200 ''OK'' ''1. Ke2'') sample_loadPgn sample_index ''alice''
     = Inl (Error ''Invalid move in PGN: Ke2'')"
  unfolding fetchGames_sample_archives fetchArchive_month1 fetchArchive_month2_Ke2
  by (simp add: promise_all_def)

theorem fetchGames_recent_archives_witness:
  "fetchGames [1, 0] (games_fetch 200 ''OK'' ''1. e4 e5'') sample_loadPgn sample_index ''alice''
     = Inr [white_win]
   \<and> length [month1, month2] = min (length [month1, month2]) 6"
proof -
  let ?fetch = "games_fetch 200 ''OK'' ''1. e4 e5''"
  have "?fetch (archives_url ''alice'') = Inr (json_response 200 ''OK'' archives_json)
      \<and> body_json (json_response 200 ''OK'' archives_json) = Some archives_json
      \<and> archiveSchema (Some archives_json) = Some [month1, month2]"
    by (simp add: games_fetch_values body_json_response archives_parsed del: archiveSchema.simps)
  with fetchGames_recent_archives [of ?fetch "''alice''" "json_response 200 ''OK'' archives_json"
      archives_json "[month1, month2]" "[1, 0]" sample_loadPgn sample_index]
  obtain recent
    where recent: "recent = drop (length [month1, month2] - 6) [month1, month2]"
      and len: "length recent = min (length [month1, month2]) 6"
      and all_ok: "(\<forall>u \<in> set recent. \<not> isl (fetchArchive ?fetch sample_loadPgn sample_index u)) \<longrightarrow>
            fetchGames [1, 0] ?fetch sample_loadPgn sample_index ''alice'' =
              Inr (concat (map (\<lambda>u. projr (fetchArchive ?fetch sample_loadPgn sample_index u)) recent))"
    by blast
  from recent have r: "recent = [month1, month2]" by simp
  have "\<forall>u \<in> set recent. \<not> isl (fetchArchive ?fetch sample_loadPgn sample_index u)"
    unfolding r by (simp add: fetchArchive_month1 fetchArchive_month2)
  with all_ok have "fetchGames [1, 0] ?fetch sample_loadPgn sample_index ''alice'' =
      Inr (concat (map (\<lambda>u. projr (fetchArchive ?fetch sample_loadPgn sample_index u)) recent))"
    by blast
  then have "fetchGames [1, 0] ?fetch sample_loadPgn sample_index ''alice'' = Inr [white_win]"
    unfolding r by (simp add: fetchArchive_month1 fetchArchive_month2)
  with len r show ?thesis by simp
qed

lemma games_fetch_same_body:
  "rel_sum (=) (\<lambda>r r'. body_json r = body_json r')
     (games_fetch code reason p u) (games_fetch code' reason' p u)"
  by (simp add: games_fetch_def json_response_def)

theorem fetchGames_ignores_status_witness:
  "fetchGames [1, 0] (games_fetch 404 ''Not Found'' ''1. e4 e5'') sample_loadPgn sample_index ''alice''
     = Inr [white_win]
   \<and> \<not> ok (json_response 404 ''Not Found'' archives_json)
   \<and> (\<exists>g :: Game. rules g = ''chess'' \<and> game_pgn g \<noteq> []
          \<and> sample_loadPgn (game_pgn g) = Inl (Error ''Invalid move in PGN: Ke2''))"
proof -
  from fetchGames_ignores_status [of "games_fetch 200 ''OK'' ''1. e4 e5''" "[1, 0]"
            sample_loadPgn sample_index "''alice''"]
    games_fetch_same_body [of 200 "''OK''" "''1. e4 e5''" _ 404 "''Not Found''"]
  have "fetchGames [1, 0] (games_fetch 404 ''Not Found'' ''1. e4 e5'') sample_loadPgn sample_index ''alice''
      = fetchGames [1, 0] (games_fetch 200 ''OK'' ''1. e4 e5'') sample_loadPgn sample_index ''alice''"
    by blast
  then have first: "fetchGames [1, 0] (games_fetch 404 ''Not Found'' ''1. e4 e5'') sample_loadPgn
      sample_index ''alice'' = Inr [white_win]"
    by (simp only: fetchGames_sample_ok)
  let ?e = "Error ''Invalid move in PGN: Ke2''"
  have no_net: "\<forall>u. games_fetch 200 ''OK'' ''1. Ke2'' u \<noteq> Inl ?e"
    by (simp add: games_fetch_def)
  have other: "?e \<noteq> SyntaxError" "?e \<noteq> ZodError"
    by simp_all
  from fetchGames_ignores_status [of "games_fetch 200 ''OK'' ''1. Ke2''" "[1, 0]"
            sample_loadPgn sample_index "''alice''"] fetchGames_sample_Ke2 no_net other
  have "\<exists>g :: Game. rules g = ''chess'' \<and> game_pgn g \<noteq> [] \<and> sample_loadPgn (game_pgn g) = Inl ?e"
    by blast
  with first show ?thesis by (simp add: json_response_def)
qed

text \<open>
  The claim as the specification words it, that success or failure depends only on whether
  the body matches the schema and that failures are JSON-parse or schema-validation
  errors only, fails on a network whose three responses all have status 200 and bodies
  that match the schemas: the one game has the move text \<open>1. Ke2\<close>, the engine rejects
  it, and \<open>fetchGames\<close> fails with the engine's error.
\<close>

theorem schema_valid_body_fails_counterexample:
  "fetchGames [1, 0] (games_fetch 200 ''OK'' ''1. Ke2'') sample_loadPgn sample_index ''alice''
     = Inl (Error ''Invalid move in PGN: Ke2'')
   \<and> games_fetch 200 ''OK'' ''1. Ke2'' (archives_url ''alice'')
       = Inr (json_response 200 ''OK'' archives_json)
   \<and> archiveSchema (body_json (json_response 200 ''OK'' archives_json)) = Some [month1, month2]
   \<and> games_fetch 200 ''OK'' ''1. Ke2'' month1
       = Inr (json_response 200 ''OK'' (JObj [(''games'', JArr [])]))
   \<and> gamesDataSchema (body_json (json_response 200 ''OK'' (JObj [(''games'', JArr [])]))) = Some []
   \<and> games_fetch 200 ''OK'' ''1. Ke2'' month2
       = Inr (json_response 200 ''OK'' (month2_json ''1. Ke2''))
   \<and> gamesDataSchema (body_json (json_response 200 ''OK'' (month2_json ''1. Ke2'')))
       = Some [parsed_game ''1. Ke2'']
   \<and> Error ''Invalid move in PGN: Ke2'' \<noteq> SyntaxError
   \<and> Error ''Invalid move in PGN: Ke2'' \<noteq> ZodError"
  using fetchGames_sample_Ke2
  by (simp add: games_fetch_values body_json_response archives_parsed
        month1_parsed month2_parsed del: archiveSchema.simps gamesDataSchema.simps)

end
